theory Spec2Isabelle
  imports Complex_Main
begin

section \<open>Transform.py: the row loop of \<open>transform\<close>\<close>

text \<open>
  \<open>transform\<close> reads the rows of a CSV file with \<open>csv.DictReader\<close>, runs the loop of
  lines 86 to 109 over them and writes \<open>transformed_rows\<close> back. The model is that loop,
  on the sequence of dictionaries the reader yields: a dictionary maps a column name to a
  string, or to \<open>None\<close> where the line was shorter than the header. Strings are lists of
  8-bit characters. Exceptions are values of \<open>error\<close>; the first one raised ends the call.
  Python's \<open>float\<close> is modelled by the reals (no rounding, no infinities, no NaN), and the
  builtin \<open>float(str)\<close> is a parameter \<open>fl\<close> of the model (\<open>None\<close> is its ValueError).
\<close>

datatype error = KeyError string | TypeError | ValueError | ZeroDivisionError

datatype cell = CNone | CStr string | CInt int | CFloat real

type_synonym raw_row = "(string \<times> string option) list"
type_synonym row = "(string \<times> cell) list"

fun cell_of_raw :: "string option \<Rightarrow> cell" where
  "cell_of_raw None = CNone"
| "cell_of_raw (Some s) = CStr s"

text \<open>Sequencing: the first exception raised ends the computation.\<close>

definition bindE :: "error + 'a \<Rightarrow> ('a \<Rightarrow> error + 'b) \<Rightarrow> error + 'b" where
  "bindE m f = (case m of Inl e \<Rightarrow> Inl e | Inr x \<Rightarrow> f x)"

text \<open>\<open>d[k]\<close>: KeyError on a missing key.\<close>

definition getitem :: "(string \<times> 'v) list \<Rightarrow> string \<Rightarrow> error + 'v" where
  "getitem d k = (case map_of d k of None \<Rightarrow> Inl (KeyError k) | Some v \<Rightarrow> Inr v)"

text \<open>\<open>d[k] = v\<close>: an existing key keeps its place, a new key goes to the end.\<close>

fun setitem :: "(string \<times> 'v) list \<Rightarrow> string \<Rightarrow> 'v \<Rightarrow> (string \<times> 'v) list" where
  "setitem [] k v = [(k, v)]"
| "setitem ((k', v') # d) k v = (if k' = k then (k', v) # d else (k', v') # setitem d k v)"

subsection \<open>\<open>datetime.strptime(s, '%m/%d/%Y')\<close> and the day difference\<close>

text \<open>
  The format compiles to the regular expression
  \<^verbatim>\<open>(?P<m>1[0-2]|0[1-9]|[1-9])/(?P<d>3[0-1]|[1-2]\d|0[1-9]|[1-9]| [1-9])/(?P<Y>\d\d\d\d)\<close>,
  matched at the start of the string. Each group is modelled by the list of its
  alternatives that match, in the order the regular expression tries them, each with the
  text it consumed and the rest of the input; the match is the first combination that
  goes through.
\<close>

definition char_in :: "char \<Rightarrow> char \<Rightarrow> char \<Rightarrow> bool" where
  "char_in lo hi c = ((of_char lo :: nat) \<le> of_char c \<and> (of_char c :: nat) \<le> of_char hi)"

definition is_digit :: "char \<Rightarrow> bool" where
  "is_digit c = char_in (CHR ''0'') (CHR ''9'') c"

text \<open>The alternatives of \<open>(?P<m>1[0-2]|0[1-9]|[1-9])\<close>.\<close>

fun alts_m :: "string \<Rightarrow> (string \<times> string) list" where
  "alts_m (a # b # cs) =
     (if a = CHR ''1'' \<and> char_in (CHR ''0'') (CHR ''2'') b then [([a, b], cs)] else []) @
     (if a = CHR ''0'' \<and> char_in (CHR ''1'') (CHR ''9'') b then [([a, b], cs)] else []) @
     (if char_in (CHR ''1'') (CHR ''9'') a then [([a], b # cs)] else [])"
| "alts_m [a] = (if char_in (CHR ''1'') (CHR ''9'') a then [([a], [])] else [])"
| "alts_m [] = []"

text \<open>The alternatives of \<open>(?P<d>3[0-1]|[1-2]\d|0[1-9]|[1-9]| [1-9])\<close>.\<close>

fun alts_d :: "string \<Rightarrow> (string \<times> string) list" where
  "alts_d (a # b # cs) =
     (if a = CHR ''3'' \<and> char_in (CHR ''0'') (CHR ''1'') b then [([a, b], cs)] else []) @
     (if char_in (CHR ''1'') (CHR ''2'') a \<and> is_digit b then [([a, b], cs)] else []) @
     (if a = CHR ''0'' \<and> char_in (CHR ''1'') (CHR ''9'') b then [([a, b], cs)] else []) @
     (if char_in (CHR ''1'') (CHR ''9'') a then [([a], b # cs)] else []) @
     (if a = CHR '' '' \<and> char_in (CHR ''1'') (CHR ''9'') b then [([a, b], cs)] else [])"
| "alts_d [a] = (if char_in (CHR ''1'') (CHR ''9'') a then [([a], [])] else [])"
| "alts_d [] = []"

text \<open>\<open>(?P<Y>\d\d\d\d)\<close>.\<close>

fun alts_Y :: "string \<Rightarrow> (string \<times> string) list" where
  "alts_Y (a # b # c # d # cs) =
     (if is_digit a \<and> is_digit b \<and> is_digit c \<and> is_digit d then [([a, b, c, d], cs)] else [])"
| "alts_Y _ = []"

text \<open>A literal \<open>/\<close> of the format.\<close>

fun slash :: "string \<Rightarrow> string list" where
  "slash (c # cs) = (if c = CHR ''/'' then [cs] else [])"
| "slash [] = []"

definition format_regex_match :: "string \<Rightarrow> (string \<times> string \<times> string \<times> string) list" where
  "format_regex_match s =
     [(m, d, y, r5). (m, r1) \<leftarrow> alts_m s, r2 \<leftarrow> slash r1, (d, r3) \<leftarrow> alts_d r2,
                     r4 \<leftarrow> slash r3, (y, r5) \<leftarrow> alts_Y r4]"

text \<open>\<open>int(group)\<close> on a matched group: decimal digits, after an optional blank.\<close>

definition int_of_group :: "string \<Rightarrow> int" where
  "int_of_group g =
     foldl (\<lambda>a c. 10 * a + (int (of_char c) - 48)) 0 (dropWhile (\<lambda>c. c = CHR '' '') g)"

text \<open>The calendar of \<open>datetime.date\<close>: \<open>_is_leap\<close>, \<open>_days_in_month\<close>,
  \<open>_days_before_year\<close>, \<open>_days_before_month\<close>, \<open>_ymd2ord\<close>.\<close>

definition is_leap :: "int \<Rightarrow> bool" where
  "is_leap y = (y mod 4 = 0 \<and> (y mod 100 \<noteq> 0 \<or> y mod 400 = 0))"

definition DAYS_IN_MONTH :: "int list" where
  "DAYS_IN_MONTH = [31, 28, 31, 30, 31, 30, 31, 31, 30, 31, 30, 31]"

definition days_in_month :: "int \<Rightarrow> int \<Rightarrow> int" where
  "days_in_month y m = (if m = 2 \<and> is_leap y then 29 else DAYS_IN_MONTH ! nat (m - 1))"

definition days_before_year :: "int \<Rightarrow> int" where
  "days_before_year y = (y - 1) * 365 + (y - 1) div 4 - (y - 1) div 100 + (y - 1) div 400"

definition days_before_month :: "int \<Rightarrow> int \<Rightarrow> int" where
  "days_before_month y m =
     sum_list (take (nat (m - 1)) DAYS_IN_MONTH) + (if m > 2 \<and> is_leap y then 1 else 0)"

definition ymd2ord :: "int \<Rightarrow> int \<Rightarrow> int \<Rightarrow> int" where
  "ymd2ord y m d = days_before_year y + days_before_month y m + d"

text \<open>A date is the triple (year, month, day) that \<open>datetime.date\<close> accepts.\<close>

type_synonym date = "int \<times> int \<times> int"

definition valid_date :: "date \<Rightarrow> bool" where
  "valid_date dt = (case dt of (y, m, d) \<Rightarrow>
     1 \<le> y \<and> y \<le> 9999 \<and> 1 \<le> m \<and> m \<le> 12 \<and> 1 \<le> d \<and> d \<le> days_in_month y m)"

definition toordinal :: "date \<Rightarrow> int" where
  "toordinal dt = (case dt of (y, m, d) \<Rightarrow> ymd2ord y m d)"

text \<open>\<open>datetime.strptime(c, '%m/%d/%Y')\<close>: TypeError unless \<open>c\<close> is a string;
  ValueError when the expression does not match, when text remains after the match, or
  when the numbers are not a date.\<close>

definition strptime :: "cell \<Rightarrow> error + date" where
  "strptime c = (case c of
       CStr s \<Rightarrow>
         (case format_regex_match s of
            [] \<Rightarrow> Inl ValueError
          | (m, d, y, rest) # _ \<Rightarrow>
              if rest \<noteq> [] then Inl ValueError
              else let dt = (int_of_group y, int_of_group m, int_of_group d)
                   in if valid_date dt then Inr dt else Inl ValueError)
     | _ \<Rightarrow> Inl TypeError)"

text \<open>\<open>(ship_date - order_date).days\<close>, both at midnight.\<close>

definition days_between :: "date \<Rightarrow> date \<Rightarrow> int" where
  "days_between ship_date order_date = toordinal ship_date - toordinal order_date"

subsection \<open>The loop body\<close>

text \<open>\<open>order_priority_mapping.get(c, 'Unknown')\<close>.\<close>

definition order_priority_mapping :: "(string \<times> string) list" where
  "order_priority_mapping =
     [(''H'', ''High''), (''C'', ''Critical''), (''L'', ''Low''), (''M'', ''Medium'')]"

definition priority_get :: "cell \<Rightarrow> string" where
  "priority_get c = (case c of
       CStr s \<Rightarrow> (case map_of order_priority_mapping s of Some v \<Rightarrow> v | None \<Rightarrow> ''Unknown'')
     | _ \<Rightarrow> ''Unknown'')"

text \<open>\<open>float(c)\<close>, with \<open>fl\<close> the conversion of a string.\<close>

definition py_float :: "(string \<Rightarrow> real option) \<Rightarrow> cell \<Rightarrow> error + real" where
  "py_float fl c = (case c of
       CNone \<Rightarrow> Inl TypeError
     | CStr s \<Rightarrow> (case fl s of None \<Rightarrow> Inl ValueError | Some x \<Rightarrow> Inr x)
     | CInt i \<Rightarrow> Inr (of_int i)
     | CFloat x \<Rightarrow> Inr x)"

text \<open>\<open>a / b\<close> on floats.\<close>

definition truediv :: "real \<Rightarrow> real \<Rightarrow> error + real" where
  "truediv a b = (if b = 0 then Inl ZeroDivisionError else Inr (a / b))"

text \<open>The reader's dictionary, as the dictionary of cells the loop body updates.\<close>

definition raw_cells :: "raw_row \<Rightarrow> row" where
  "raw_cells raw = map (\<lambda>(k, v). (k, cell_of_raw v)) raw"

text \<open>Lines 94 to 106, on a row that is not a duplicate. The assignments update the
  dictionary the reader returned; the later reads are on the updated dictionary.\<close>

definition transform_row :: "(string \<Rightarrow> real option) \<Rightarrow> raw_row \<Rightarrow> error + row" where
  "transform_row fl raw =
     (let row0 = raw_cells raw in
      bindE (getitem row0 ''Order Date'') (\<lambda>od.
      bindE (strptime od) (\<lambda>order_date.
      bindE (getitem row0 ''Ship Date'') (\<lambda>sd.
      bindE (strptime sd) (\<lambda>ship_date.
      let row1 = setitem row0 ''Order Processing Time''
                   (CInt (days_between ship_date order_date)) in
      bindE (getitem row1 ''Order Priority'') (\<lambda>p.
      let row2 = setitem row1 ''Order Priority'' (CStr (priority_get p)) in
      bindE (getitem row2 ''Total Profit'') (\<lambda>tp.
      bindE (py_float fl tp) (\<lambda>total_profit.
      bindE (getitem row2 ''Total Revenue'') (\<lambda>tr.
      bindE (py_float fl tr) (\<lambda>total_revenue.
      bindE (if total_revenue \<noteq> 0
             then bindE (truediv total_profit total_revenue) (\<lambda>q. Inr (CFloat q))
             else Inr (CInt 0)) (\<lambda>gm.
      Inr (setitem row2 ''Gross Margin'' gm))))))))))))"

subsection \<open>The loop\<close>

text \<open>\<open>seen\<close> is \<open>seen_order_ids\<close>, \<open>acc\<close> is \<open>transformed_rows\<close>. A row whose
  Order ID was seen is skipped before anything else of it is read.\<close>

fun transform_loop ::
  "(string \<Rightarrow> real option) \<Rightarrow> string option set \<Rightarrow> row list \<Rightarrow> raw_row list \<Rightarrow> error + row list" where
  "transform_loop fl seen acc [] = Inr acc"
| "transform_loop fl seen acc (r # rs) =
     (case getitem r ''Order ID'' of
        Inl e \<Rightarrow> Inl e
      | Inr oid \<Rightarrow>
          if oid \<in> seen then transform_loop fl seen acc rs
          else (case transform_row fl r of
                  Inl e \<Rightarrow> Inl e
                | Inr r' \<Rightarrow> transform_loop fl (insert oid seen) (acc @ [r']) rs))"

definition transform :: "(string \<Rightarrow> real option) \<Rightarrow> raw_row list \<Rightarrow> error + row list" where
  "transform fl rows = transform_loop fl {} [] rows"

text \<open>\<open>row['Order ID']\<close> as a lookup (\<open>None\<close>: the key is missing), and the Order IDs
  that occur in a sequence of rows.\<close>

definition order_id :: "raw_row \<Rightarrow> string option option" where
  "order_id r = map_of r ''Order ID''"

definition ids :: "raw_row list \<Rightarrow> string option set" where
  "ids xs = {v. \<exists>r \<in> set xs. order_id r = Some v}"

text \<open>The calendar day after a date, to say what a difference in whole days is.\<close>

definition next_day :: "date \<Rightarrow> date" where
  "next_day dt = (case dt of (y, m, d) \<Rightarrow>
     if d < days_in_month y m then (y, m, d + 1)
     else if m < 12 then (y, m + 1, 1)
     else (y + 1, 1, 1))"

subsection \<open>Sample rows\<close>

text \<open>Three raw rows in which the first and the third share Order ID 100 and differ in
  their other fields, the output rows of the first two, and \<open>float\<close> on the strings they
  hold.\<close>

definition float_sample :: "string \<Rightarrow> real option" where
  "float_sample s = (if s = ''10'' then Some 10 else if s = ''4'' then Some 4
                     else if s = ''0'' then Some 0 else None)"

definition sample_row1 :: raw_row where
  "sample_row1 = [(''Region'', Some ''Asia''), (''Order Priority'', Some ''H''),
     (''Order Date'', Some ''1/1/2020''), (''Order ID'', Some ''100''),
     (''Ship Date'', Some ''1/5/2020''), (''Units Sold'', Some ''5''),
     (''Total Revenue'', Some ''10''), (''Total Profit'', Some ''4'')]"

definition sample_row2 :: raw_row where
  "sample_row2 = [(''Region'', Some ''Europe''), (''Order Priority'', Some ''X''),
     (''Order Date'', Some ''1/5/2020''), (''Order ID'', Some ''101''),
     (''Ship Date'', Some ''1/1/2020''), (''Units Sold'', Some ''3''),
     (''Total Revenue'', Some ''0''), (''Total Profit'', Some ''0'')]"

definition sample_row3 :: raw_row where
  "sample_row3 = [(''Region'', Some ''Asia''), (''Order Priority'', Some ''L''),
     (''Order Date'', Some ''1/1/2020''), (''Order ID'', Some ''100''),
     (''Ship Date'', Some ''1/9/2020''), (''Units Sold'', Some ''7''),
     (''Total Revenue'', Some ''4''), (''Total Profit'', Some ''4'')]"

definition sample_out1 :: row where
  "sample_out1 = [(''Region'', CStr ''Asia''), (''Order Priority'', CStr ''High''),
     (''Order Date'', CStr ''1/1/2020''), (''Order ID'', CStr ''100''),
     (''Ship Date'', CStr ''1/5/2020''), (''Units Sold'', CStr ''5''),
     (''Total Revenue'', CStr ''10''), (''Total Profit'', CStr ''4''),
     (''Order Processing Time'', CInt 4), (''Gross Margin'', CFloat (2 / 5))]"

definition sample_out2 :: row where
  "sample_out2 = [(''Region'', CStr ''Europe''), (''Order Priority'', CStr ''Unknown''),
     (''Order Date'', CStr ''1/5/2020''), (''Order ID'', CStr ''101''),
     (''Ship Date'', CStr ''1/1/2020''), (''Units Sold'', CStr ''3''),
     (''Total Revenue'', CStr ''0''), (''Total Profit'', CStr ''0''),
     (''Order Processing Time'', CInt (- 4)), (''Gross Margin'', CInt 0)]"

section \<open>Query.py: \<open>lambda_handler\<close>\<close>

text \<open>
  The handler downloads a SQLite database, builds two query texts from the request,
  runs both and answers with the first row of the aggregation. The model has three
  layers: the table \<open>orders\<close> as Load.py creates and fills it; the part of SQLite that the
  handler's own texts exercise (string literals, column names, \<open>=\<close>, \<open>AND\<close>, \<open>OR\<close>,
  \<open>GROUP BY\<close> on text columns, the nine aggregates); and the handler. What lies outside
  the repository and outside that part of SQLite is a parameter \<open>env\<close>: the download, the
  behaviour of SQLite on any other text, \<open>int\<close> on a string, and the runtime metrics of the
  Inspector. An exception is modelled by its message, which is all the handler keeps of
  it. Strings are byte strings; SQLite's \<open>REAL\<close> and Python's \<open>float\<close> are the reals.
\<close>

subsection \<open>The table \<open>orders\<close>\<close>

datatype sqlval = SNull | SInt int | SReal real | SText string

record order_row =
  rowid :: int
  Region :: string
  Country :: string
  ItemType :: string
  SalesChannel :: string
  OrderPriority :: string
  OrderDate :: string
  OrderID :: int
  ShipDate :: string
  UnitsSold :: int
  UnitPrice :: real
  UnitCost :: real
  TotalRevenue :: real
  TotalCost :: real
  TotalProfit :: real
  OrderProcessingTime :: int
  GrossMargin :: real

text \<open>A row as \<open>SELECT *\<close> returns it.\<close>

definition row_tuple :: "order_row \<Rightarrow> sqlval list" where
  "row_tuple r =
     [SInt (rowid r), SText (Region r), SText (Country r), SText (ItemType r),
      SText (SalesChannel r), SText (OrderPriority r), SText (OrderDate r), SInt (OrderID r),
      SText (ShipDate r), SInt (UnitsSold r), SReal (UnitPrice r), SReal (UnitCost r),
      SReal (TotalRevenue r), SReal (TotalCost r), SReal (TotalProfit r),
      SInt (OrderProcessingTime r), SReal (GrossMargin r)]"

datatype text_col =
  Col_Region | Col_Country | Col_ItemType | Col_SalesChannel | Col_OrderPriority
| Col_OrderDate | Col_ShipDate

fun col_value :: "text_col \<Rightarrow> order_row \<Rightarrow> string" where
  "col_value Col_Region r = Region r"
| "col_value Col_Country r = Country r"
| "col_value Col_ItemType r = ItemType r"
| "col_value Col_SalesChannel r = SalesChannel r"
| "col_value Col_OrderPriority r = OrderPriority r"
| "col_value Col_OrderDate r = OrderDate r"
| "col_value Col_ShipDate r = ShipDate r"

definition text_column :: "string \<Rightarrow> text_col option" where
  "text_column n =
     map_of [(''Region'', Col_Region), (''Country'', Col_Country), (''ItemType'', Col_ItemType),
             (''SalesChannel'', Col_SalesChannel), (''OrderPriority'', Col_OrderPriority),
             (''OrderDate'', Col_OrderDate), (''ShipDate'', Col_ShipDate)] n"

subsection \<open>SQLite on the texts of the handler: tokens\<close>

text \<open>
  The tokenizer reads blanks, \<open>=\<close>, commas, words of letters, digits and underscores that
  start with a letter or an underscore, and string literals in single quotes, in which a
  doubled quote stands for one quote. Any other character outside a literal, a NUL
  character anywhere, and a literal that is not closed put the text outside the modelled
  part (\<open>LexFail\<close>).
\<close>

datatype token = TIdent string | TStr string | TEq | TComma

datatype lex_mode = Idle | Word string | Str string | StrQ string

datatype lex_state = LexFail | Lex lex_mode "token list"

definition quote :: char where
  "quote = CHR 0x27"

definition is_alpha :: "char \<Rightarrow> bool" where
  "is_alpha c = (char_in (CHR ''a'') (CHR ''z'') c \<or> char_in (CHR ''A'') (CHR ''Z'') c \<or> c = CHR ''_'')"

definition is_word_char :: "char \<Rightarrow> bool" where
  "is_word_char c = (is_alpha c \<or> is_digit c)"

text \<open>A character read between tokens; \<open>ts\<close> holds the tokens read so far, last first.\<close>

definition idle_step :: "token list \<Rightarrow> char \<Rightarrow> lex_state" where
  "idle_step ts c =
     (if c = CHR '' '' then Lex Idle ts
      else if c = CHR ''='' then Lex Idle (TEq # ts)
      else if c = CHR '','' then Lex Idle (TComma # ts)
      else if c = quote then Lex (Str []) ts
      else if is_alpha c then Lex (Word [c]) ts
      else LexFail)"

fun lex_step :: "lex_state \<Rightarrow> char \<Rightarrow> lex_state" where
  "lex_step LexFail c = LexFail"
| "lex_step (Lex Idle ts) c = idle_step ts c"
| "lex_step (Lex (Word w) ts) c =
     (if is_word_char c then Lex (Word (c # w)) ts else idle_step (TIdent (rev w) # ts) c)"
| "lex_step (Lex (Str s) ts) c =
     (if c = quote then Lex (StrQ s) ts
      else if c = CHR 0x00 then LexFail
      else Lex (Str (c # s)) ts)"
| "lex_step (Lex (StrQ s) ts) c =
     (if c = quote then Lex (Str (c # s)) ts else idle_step (TStr (rev s) # ts) c)"

fun lex_finish :: "lex_state \<Rightarrow> token list option" where
  "lex_finish LexFail = None"
| "lex_finish (Lex Idle ts) = Some (rev ts)"
| "lex_finish (Lex (Word w) ts) = Some (rev (TIdent (rev w) # ts))"
| "lex_finish (Lex (Str s) ts) = None"
| "lex_finish (Lex (StrQ s) ts) = Some (rev (TStr (rev s) # ts))"

definition tokenize :: "string \<Rightarrow> token list option" where
  "tokenize s = lex_finish (foldl lex_step (Lex Idle []) s)"

subsection \<open>SQLite on the texts of the handler: the clauses\<close>

text \<open>
  A \<open>WHERE\<close> clause of the modelled part is a disjunction of conjunctions of equalities
  between text columns and string literals (\<open>AND\<close> binds tighter than \<open>OR\<close>); a
  \<open>GROUP BY\<close> clause is a list of text columns.
\<close>

datatype operand = Col text_col | Lit string

type_synonym where_expr = "(operand \<times> operand) list list"

fun split_on :: "token \<Rightarrow> token list \<Rightarrow> token list list" where
  "split_on sep [] = [[]]"
| "split_on sep (t # ts) =
     (if t = sep then [] # split_on sep ts
      else (case split_on sep ts of g # gs \<Rightarrow> (t # g) # gs | [] \<Rightarrow> [[t]]))"

fun parse_operand :: "token \<Rightarrow> operand option" where
  "parse_operand (TStr s) = Some (Lit s)"
| "parse_operand (TIdent n) = map_option Col (text_column n)"
| "parse_operand _ = None"

fun parse_cmp :: "token list \<Rightarrow> (operand \<times> operand) option" where
  "parse_cmp [a, TEq, b] =
     (case (parse_operand a, parse_operand b) of
        (Some x, Some y) \<Rightarrow> Some (x, y)
      | _ \<Rightarrow> None)"
| "parse_cmp _ = None"

definition parse_and :: "token list \<Rightarrow> (operand \<times> operand) list option" where
  "parse_and ts = those (map parse_cmp (split_on (TIdent ''AND'') ts))"

definition parse_or :: "token list \<Rightarrow> where_expr option" where
  "parse_or ts = those (map parse_and (split_on (TIdent ''OR'') ts))"

fun parse_where :: "token list \<Rightarrow> where_expr option option" where
  "parse_where [] = Some None"
| "parse_where (t # ts) = (if t = TIdent ''WHERE'' then map_option Some (parse_or ts) else None)"

fun parse_group_col :: "token list \<Rightarrow> text_col option" where
  "parse_group_col [TIdent n] = text_column n"
| "parse_group_col _ = None"

fun parse_group_by :: "token list \<Rightarrow> text_col list option" where
  "parse_group_by [] = Some []"
| "parse_group_by (a # b # ts) =
     (if a = TIdent ''GROUP'' \<and> b = TIdent ''BY''
      then those (map parse_group_col (split_on TComma ts)) else None)"
| "parse_group_by _ = None"

text \<open>What follows \<open>FROM orders\<close>: the \<open>WHERE\<close> clause up to the word \<open>GROUP\<close>, then the
  \<open>GROUP BY\<close> clause.\<close>

definition parse_tail :: "string \<Rightarrow> (where_expr option \<times> text_col list) option" where
  "parse_tail s =
     (case tokenize s of
        None \<Rightarrow> None
      | Some ts \<Rightarrow>
          (case (parse_where (takeWhile (\<lambda>t. t \<noteq> TIdent ''GROUP'') ts),
                 parse_group_by (dropWhile (\<lambda>t. t \<noteq> TIdent ''GROUP'') ts)) of
             (Some w, Some g) \<Rightarrow> Some (w, g)
           | _ \<Rightarrow> None))"

subsection \<open>SQLite on the texts of the handler: evaluation\<close>

fun operand_value :: "order_row \<Rightarrow> operand \<Rightarrow> string" where
  "operand_value r (Col c) = col_value c r"
| "operand_value r (Lit s) = s"

definition where_holds :: "where_expr option \<Rightarrow> order_row \<Rightarrow> bool" where
  "where_holds w r =
     (case w of
        None \<Rightarrow> True
      | Some e \<Rightarrow> list_ex (list_all (\<lambda>(a, b). operand_value r a = operand_value r b)) e)"

text \<open>The order of text values (bytes compared one by one, a proper prefix first), and
  the order of group keys, column by column. The groups come out in ascending key order.\<close>

fun str_less :: "string \<Rightarrow> string \<Rightarrow> bool" where
  "str_less [] [] = False"
| "str_less [] (y # ys) = True"
| "str_less (x # xs) [] = False"
| "str_less (x # xs) (y # ys) =
     ((of_char x :: nat) < of_char y \<or> (x = y \<and> str_less xs ys))"

fun key_less :: "string list \<Rightarrow> string list \<Rightarrow> bool" where
  "key_less (x # xs) (y # ys) = (str_less x y \<or> (x = y \<and> key_less xs ys))"
| "key_less _ _ = False"

fun insert_key :: "string list \<Rightarrow> string list list \<Rightarrow> string list list" where
  "insert_key k [] = [k]"
| "insert_key k (x # xs) =
     (if k = x then x # xs else if key_less k x then k # x # xs else x # insert_key k xs)"

definition group_key :: "text_col list \<Rightarrow> order_row \<Rightarrow> string list" where
  "group_key g r = map (\<lambda>c. col_value c r) g"

definition group_keys :: "text_col list \<Rightarrow> order_row list \<Rightarrow> string list list" where
  "group_keys g rows = foldr insert_key (map (group_key g) rows) []"

definition groups :: "text_col list \<Rightarrow> order_row list \<Rightarrow> order_row list list" where
  "groups g rows = map (\<lambda>k. filter (\<lambda>r. group_key g r = k) rows) (group_keys g rows)"

text \<open>The aggregates. \<open>SUM\<close> of integers raises when the running sum leaves the 64-bit
  range. Over no rows \<open>AVG\<close>, \<open>MAX\<close>, \<open>MIN\<close> and \<open>SUM\<close> are NULL and \<open>COUNT\<close> is 0.\<close>

definition avg_real :: "real list \<Rightarrow> sqlval" where
  "avg_real xs = (if xs = [] then SNull else SReal (sum_list xs / real (length xs)))"

definition max_int :: "int list \<Rightarrow> sqlval" where
  "max_int xs = (case xs of [] \<Rightarrow> SNull | x # ys \<Rightarrow> SInt (fold max ys x))"

definition min_int :: "int list \<Rightarrow> sqlval" where
  "min_int xs = (case xs of [] \<Rightarrow> SNull | x # ys \<Rightarrow> SInt (fold min ys x))"

fun sum_int64 :: "int \<Rightarrow> int list \<Rightarrow> int option" where
  "sum_int64 acc [] = Some acc"
| "sum_int64 acc (x # xs) =
     (if - (2 ^ 63) \<le> acc + x \<and> acc + x < 2 ^ 63 then sum_int64 (acc + x) xs else None)"

definition sum_real :: "real list \<Rightarrow> sqlval" where
  "sum_real xs = (if xs = [] then SNull else SReal (sum_list xs))"

definition count_distinct :: "int list \<Rightarrow> sqlval" where
  "count_distinct xs = SInt (int (length (remdups xs)))"

text \<open>The select list of \<open>sql_query_agg\<close>, over the rows of one group.\<close>

definition agg_tuple :: "order_row list \<Rightarrow> string + sqlval list" where
  "agg_tuple rows =
     (case sum_int64 0 (map UnitsSold rows) of
        None \<Rightarrow> Inl ''integer overflow''
      | Some units_total \<Rightarrow>
          Inr [avg_real (map (\<lambda>r. real_of_int (OrderProcessingTime r)) rows),
               avg_real (map GrossMargin rows),
               avg_real (map (\<lambda>r. real_of_int (UnitsSold r)) rows),
               max_int (map UnitsSold rows),
               min_int (map UnitsSold rows),
               (if rows = [] then SNull else SInt units_total),
               sum_real (map TotalRevenue rows),
               sum_real (map TotalProfit rows),
               count_distinct (map OrderID rows)])"

text \<open>All rows of the result, or the first exception.\<close>

fun collect :: "(string + 'a) list \<Rightarrow> string + 'a list" where
  "collect [] = Inr []"
| "collect (x # xs) =
     (case x of
        Inl e \<Rightarrow> Inl e
      | Inr v \<Rightarrow> (case collect xs of Inl e \<Rightarrow> Inl e | Inr vs \<Rightarrow> Inr (v # vs)))"

definition select_agg :: "where_expr option \<Rightarrow> text_col list \<Rightarrow> order_row list \<Rightarrow> string + sqlval list list" where
  "select_agg w g table =
     (let matching = filter (where_holds w) table
      in if g = [] then collect [agg_tuple matching]
         else collect (map agg_tuple (groups g matching)))"

definition select_star :: "where_expr option \<Rightarrow> order_row list \<Rightarrow> sqlval list list" where
  "select_star w table = map row_tuple (filter (where_holds w) table)"

subsection \<open>The environment\<close>

text \<open>Python values of the response.\<close>

datatype pyval = PNone | PInt int | PFloat real | PStr string | PDict "(string \<times> pyval) list"

text \<open>
  \<open>download\<close>: \<open>s3_client.download_file\<close> followed by \<open>sqlite3.connect\<close>, giving the rows of
  the table \<open>orders\<close> of the downloaded file, or the message of the exception.
  \<open>execute_other\<close>: what \<open>cursor.execute\<close> and \<open>fetchall\<close> do with a text outside the
  modelled part of SQLite. \<open>int_of_str\<close>: Python's \<open>int\<close> on a string.
  \<open>runtime_metrics\<close>: what \<open>inspector.finish()\<close> returns.
\<close>

record env =
  download :: "string \<Rightarrow> string \<Rightarrow> string + order_row list"
  execute_other :: "string \<Rightarrow> order_row list \<Rightarrow> string + sqlval list list"
  int_of_str :: "string \<Rightarrow> string + int"
  runtime_metrics :: "(string \<times> pyval) list"

text \<open>The request: \<open>None\<close> is a key that the event does not have.\<close>

record event =
  ev_bucket_name :: "string option"
  ev_key :: "string option"
  ev_Filters :: "(string \<rightharpoonup> string) option"
  ev_Group_By :: "string list option"

subsection \<open>The query texts\<close>

definition newline :: char where
  "newline = CHR 0x0A"

definition sql_query_agg_base :: string where
  "sql_query_agg_base =
     newline # ''            SELECT '' @
     newline # ''                AVG(OrderProcessingTime) AS AvgOrderProcessingTime, '' @
     newline # ''                AVG(GrossMargin) AS AvgGrossMargin,'' @
     newline # ''                AVG(CAST(UnitsSold AS FLOAT)) AS AvgUnitsSold,'' @
     newline # ''                MAX(CAST(UnitsSold AS INTEGER)) AS MaxUnitsSold,'' @
     newline # ''                MIN(CAST(UnitsSold AS INTEGER)) AS MinUnitsSold,'' @
     newline # ''                SUM(CAST(UnitsSold AS INTEGER)) AS TotalUnitsSold,'' @
     newline # ''                SUM(TotalRevenue) AS TotalRevenue,'' @
     newline # ''                SUM(TotalProfit) AS TotalProfit,'' @
     newline # ''                COUNT(DISTINCT OrderID) AS NumberOfOrders'' @
     newline # ''            FROM '' @
     newline # ''                orders'' @
     newline # ''        ''"

definition sql_query_filters_base :: string where
  "sql_query_filters_base = ''SELECT * FROM orders''"

text \<open>\<open>sep.join(xs)\<close>.\<close>

fun join :: "string \<Rightarrow> string list \<Rightarrow> string" where
  "join sep [] = []"
| "join sep [x] = x"
| "join sep (x # y # ys) = x @ sep @ join sep (y # ys)"

text \<open>One of the five \<open>if filters.get(key): query_filters.append(f"col = '{filters[key]}'")\<close>:
  a missing key and an empty string are both false.\<close>

definition filter_clause :: "(string \<rightharpoonup> string) \<Rightarrow> string \<Rightarrow> string \<Rightarrow> string list" where
  "filter_clause filters k col =
     (case filters k of
        None \<Rightarrow> []
      | Some v \<Rightarrow> if v = [] then [] else [col @ '' = '' @ [quote] @ v @ [quote]])"

definition query_filters :: "(string \<rightharpoonup> string) \<Rightarrow> string list" where
  "query_filters filters =
     filter_clause filters ''Region'' ''Region'' @
     filter_clause filters ''Item Type'' ''ItemType'' @
     filter_clause filters ''Sales Channel'' ''SalesChannel'' @
     filter_clause filters ''Order Priority'' ''OrderPriority'' @
     filter_clause filters ''Country'' ''Country''"

definition where_clause :: "(string \<rightharpoonup> string) \<Rightarrow> string" where
  "where_clause filters =
     (if query_filters filters = [] then []
      else '' WHERE '' @ join '' AND '' (query_filters filters))"

definition group_by_clause :: "string list \<Rightarrow> string" where
  "group_by_clause group_by =
     (if group_by = [] then [] else '' GROUP BY '' @ join '', '' group_by)"

definition sql_query_filters :: "(string \<rightharpoonup> string) \<Rightarrow> string" where
  "sql_query_filters filters = sql_query_filters_base @ where_clause filters"

definition sql_query_agg :: "(string \<rightharpoonup> string) \<Rightarrow> string list \<Rightarrow> string" where
  "sql_query_agg filters group_by =
     sql_query_agg_base @ where_clause filters @ group_by_clause group_by"

subsection \<open>\<open>cursor.execute\<close> and \<open>fetchall\<close>\<close>

fun strip_prefix :: "string \<Rightarrow> string \<Rightarrow> string option" where
  "strip_prefix [] s = Some s"
| "strip_prefix (p # ps) [] = None"
| "strip_prefix (p # ps) (c # cs) = (if p = c then strip_prefix ps cs else None)"

text \<open>
  A text that is the aggregation's select list followed by clauses of the modelled part,
  or \<open>SELECT * FROM orders\<close> followed by a \<open>WHERE\<close> clause of the modelled part, is
  evaluated; every other text is left to \<open>execute_other\<close>.
\<close>

definition execute :: "env \<Rightarrow> order_row list \<Rightarrow> string \<Rightarrow> string + sqlval list list" where
  "execute en table sql =
     (case strip_prefix sql_query_agg_base sql of
        Some rest \<Rightarrow>
          (case parse_tail rest of
             Some (w, g) \<Rightarrow> select_agg w g table
           | None \<Rightarrow> execute_other en sql table)
      | None \<Rightarrow>
          (case strip_prefix sql_query_filters_base sql of
             Some rest \<Rightarrow>
               (if rest = [] \<or> hd rest = CHR '' '' then
                  (case parse_tail rest of
                     Some (w, []) \<Rightarrow> Inr (select_star w table)
                   | _ \<Rightarrow> execute_other en sql table)
                else execute_other en sql table)
           | None \<Rightarrow> execute_other en sql table))"

subsection \<open>The handler\<close>

text \<open>Sequencing of steps that may raise, the exception being its message.\<close>

definition bindS :: "string + 'a \<Rightarrow> ('a \<Rightarrow> string + 'b) \<Rightarrow> string + 'b" where
  "bindS m f = (case m of Inl e \<Rightarrow> Inl e | Inr x \<Rightarrow> f x)"

text \<open>\<open>t[i]\<close> on a tuple of the result.\<close>

definition tuple_item :: "sqlval list \<Rightarrow> nat \<Rightarrow> string + sqlval" where
  "tuple_item t i = (if i < length t then Inr (t ! i) else Inl ''tuple index out of range'')"

text \<open>\<open>int(v)\<close> on a value of the result: a float is truncated towards zero.\<close>

definition py_int :: "env \<Rightarrow> sqlval \<Rightarrow> string + int" where
  "py_int en v = (case v of
       SNull \<Rightarrow> Inl (''int() argument must be a string, a bytes-like object or a real number, not 'NoneType'' @ [quote])
     | SInt i \<Rightarrow> Inr i
     | SReal x \<Rightarrow> Inr (if 0 \<le> x then \<lfloor>x\<rfloor> else \<lceil>x\<rceil>)
     | SText s \<Rightarrow> int_of_str en s)"

definition pyval_of :: "sqlval \<Rightarrow> pyval" where
  "pyval_of v = (case v of SNull \<Rightarrow> PNone | SInt i \<Rightarrow> PInt i | SReal x \<Rightarrow> PFloat x | SText s \<Rightarrow> PStr s)"

text \<open>Lines 99 to 111: one dictionary, from the first row of the aggregation's result.\<close>

definition aggregations :: "env \<Rightarrow> sqlval list list \<Rightarrow> string + (string \<times> pyval) list" where
  "aggregations en agg_result =
     (case agg_result of
        [] \<Rightarrow> Inr []
      | t # _ \<Rightarrow>
          if t = [] then Inr []
          else
            bindS (tuple_item t 0) (\<lambda>v0.
            bindS (tuple_item t 1) (\<lambda>v1.
            bindS (tuple_item t 2) (\<lambda>v2.
            bindS (tuple_item t 3) (\<lambda>v3.
            bindS (tuple_item t 4) (\<lambda>v4.
            bindS (tuple_item t 5) (\<lambda>v5.
            bindS (tuple_item t 6) (\<lambda>v6.
            bindS (tuple_item t 7) (\<lambda>v7.
            bindS (tuple_item t 8) (\<lambda>v8.
            bindS (py_int en v8) (\<lambda>n.
            Inr [(''Average Order Processing Time in days'', pyval_of v0),
                 (''Average Gross Margin'', pyval_of v1),
                 (''Average Units Sold'', pyval_of v2),
                 (''Max Units Sold'', pyval_of v3),
                 (''Min Units Sold'', pyval_of v4),
                 (''Total Units Sold'', pyval_of v5),
                 (''Total Revenue'', pyval_of v6),
                 (''Total Profit'', pyval_of v7),
                 (''Number of Orders'', PInt n)])))))))))))"

text \<open>\<open>d.update(other)\<close>.\<close>

definition dict_update :: "(string \<times> 'v) list \<Rightarrow> (string \<times> 'v) list \<Rightarrow> (string \<times> 'v) list" where
  "dict_update d other = foldl (\<lambda>acc (k, v). setitem acc k v) d other"

text \<open>The two results of the queries: \<open>filter_result\<close> and \<open>agg_result\<close>.\<close>

definition run_queries ::
  "env \<Rightarrow> order_row list \<Rightarrow> (string \<rightharpoonup> string) \<Rightarrow> string list
     \<Rightarrow> string + (sqlval list list \<times> sqlval list list)" where
  "run_queries en table filters group_by =
     bindS (execute en table (sql_query_filters filters)) (\<lambda>filter_result.
     bindS (execute en table (sql_query_agg filters group_by)) (\<lambda>agg_result.
     Inr (filter_result, agg_result)))"

text \<open>The body of the \<open>try\<close>, up to the dictionary \<open>aggregations\<close>.\<close>

text \<open>\<open>event.get("Filters", {})\<close> and \<open>event.get("Group By", [])\<close>.\<close>

definition get_Filters :: "event \<Rightarrow> (string \<rightharpoonup> string)" where
  "get_Filters ev = (case ev_Filters ev of None \<Rightarrow> Map.empty | Some f \<Rightarrow> f)"

definition get_Group_By :: "event \<Rightarrow> string list" where
  "get_Group_By ev = (case ev_Group_By ev of None \<Rightarrow> [] | Some g \<Rightarrow> g)"

definition handler_body :: "env \<Rightarrow> event \<Rightarrow> string + (string \<times> pyval) list" where
  "handler_body en ev =
     (if ev_bucket_name ev \<in> {None, Some []} \<or> ev_key ev \<in> {None, Some []}
      then Inl ''Both 'bucket_name' and 'key' are required.''
      else
        bindS (download en (the (ev_bucket_name ev)) (the (ev_key ev))) (\<lambda>table.
        bindS (run_queries en table (get_Filters ev) (get_Group_By ev))
          (\<lambda>(filter_result, agg_result). aggregations en agg_result)))"

definition lambda_handler :: "env \<Rightarrow> event \<Rightarrow> (string \<times> pyval) list" where
  "lambda_handler en ev =
     (case handler_body en ev of
        Inr aggs \<Rightarrow>
          dict_update [(''statusCode'', PInt 200), (''aggregations'', PDict aggs)]
            (runtime_metrics en)
      | Inl e \<Rightarrow>
          dict_update [(''statusCode'', PInt 500), (''error'', PStr e)] (runtime_metrics en))"

subsection \<open>A sample database and request\<close>

text \<open>Three rows of \<open>orders\<close>, an environment whose bucket holds a given table, and a
  request for it.\<close>

definition sample_asia :: order_row where
  "sample_asia = \<lparr>rowid = 1, Region = ''Asia'', Country = ''Japan'', ItemType = ''Food'',
     SalesChannel = ''Online'', OrderPriority = ''High'', OrderDate = ''1/1/2020'', OrderID = 100,
     ShipDate = ''1/5/2020'', UnitsSold = 5, UnitPrice = 2, UnitCost = 1, TotalRevenue = 10,
     TotalCost = 6, TotalProfit = 4, OrderProcessingTime = 4, GrossMargin = 2 / 5\<rparr>"

definition sample_europe :: order_row where
  "sample_europe = \<lparr>rowid = 2, Region = ''Europe'', Country = ''France'', ItemType = ''Food'',
     SalesChannel = ''Online'', OrderPriority = ''Unknown'', OrderDate = ''1/5/2020'', OrderID = 101,
     ShipDate = ''1/1/2020'', UnitsSold = 3, UnitPrice = 0, UnitCost = 0, TotalRevenue = 0,
     TotalCost = 0, TotalProfit = 0, OrderProcessingTime = - 4, GrossMargin = 0\<rparr>"

definition sample_blank :: order_row where
  "sample_blank = \<lparr>rowid = 3, Region = '''', Country = ''Peru'', ItemType = ''Fruits'',
     SalesChannel = ''Offline'', OrderPriority = ''Low'', OrderDate = ''2/1/2020'', OrderID = 102,
     ShipDate = ''2/3/2020'', UnitsSold = 7, UnitPrice = 1, UnitCost = 1, TotalRevenue = 7,
     TotalCost = 7, TotalProfit = 0, OrderProcessingTime = 2, GrossMargin = 0\<rparr>"

definition sample_env :: "order_row list \<Rightarrow> env" where
  "sample_env table = \<lparr>download = (\<lambda>b k. if b = ''bucket'' \<and> k = ''databases/data.db''
                                        then Inr table else Inl ''Not Found''),
     execute_other = (\<lambda>sql t. Inl ''syntax error''),
     int_of_str = (\<lambda>s. Inl ''invalid literal for int()''),
     runtime_metrics = [(''lang'', PStr ''python'')]\<rparr>"

definition sample_event :: "(string \<rightharpoonup> string) option \<Rightarrow> string list option \<Rightarrow> event" where
  "sample_event f g = \<lparr>ev_bucket_name = Some ''bucket'', ev_key = Some ''databases/data.db'',
     ev_Filters = f, ev_Group_By = g\<rparr>"

text \<open>The keys of \<open>Filters\<close> that the handler reads.\<close>

definition filter_keys :: "string set" where
  "filter_keys = {''Region'', ''Item Type'', ''Sales Channel'', ''Order Priority'', ''Country''}"

subsection \<open>Requests inside the modelled part of SQLite\<close>

text \<open>
  A filter value is plain when it holds no single quote and no NUL character. For a
  request, \<open>filter_pairs\<close> lists the columns and values of the filters that are present and
  not empty, \<open>matches\<close> says that a row has these values in these columns, and
  \<open>where_expr_of\<close> is the conjunction of the equalities. The remaining definitions name the
  tokens of the generated clauses.
\<close>

definition plain_value :: "string \<Rightarrow> bool" where
  "plain_value v = list_all (\<lambda>c. c \<noteq> quote \<and> c \<noteq> CHR 0x00) v"

fun col_name :: "text_col \<Rightarrow> string" where
  "col_name Col_Region = ''Region''"
| "col_name Col_Country = ''Country''"
| "col_name Col_ItemType = ''ItemType''"
| "col_name Col_SalesChannel = ''SalesChannel''"
| "col_name Col_OrderPriority = ''OrderPriority''"
| "col_name Col_OrderDate = ''OrderDate''"
| "col_name Col_ShipDate = ''ShipDate''"

definition filter_pair :: "(string \<rightharpoonup> string) \<Rightarrow> string \<Rightarrow> text_col \<Rightarrow> (text_col \<times> string) list" where
  "filter_pair f k c = (case f k of None \<Rightarrow> [] | Some v \<Rightarrow> if v = [] then [] else [(c, v)])"

definition filter_pairs :: "(string \<rightharpoonup> string) \<Rightarrow> (text_col \<times> string) list" where
  "filter_pairs f =
     filter_pair f ''Region'' Col_Region @
     filter_pair f ''Item Type'' Col_ItemType @
     filter_pair f ''Sales Channel'' Col_SalesChannel @
     filter_pair f ''Order Priority'' Col_OrderPriority @
     filter_pair f ''Country'' Col_Country"

definition matches :: "(string \<rightharpoonup> string) \<Rightarrow> order_row \<Rightarrow> bool" where
  "matches f r = list_all (\<lambda>(c, v). col_value c r = v) (filter_pairs f)"

definition where_expr_of :: "(string \<rightharpoonup> string) \<Rightarrow> where_expr option" where
  "where_expr_of f =
     (if filter_pairs f = [] then None
      else Some [map (\<lambda>(c, v). (Col c, Lit v)) (filter_pairs f)])"

definition pred_text :: "text_col \<times> string \<Rightarrow> string" where
  "pred_text p = col_name (fst p) @ '' = '' @ [quote] @ snd p @ [quote]"

definition pred_toks :: "text_col \<times> string \<Rightarrow> token list" where
  "pred_toks p = [TIdent (col_name (fst p)), TEq, TStr (snd p)]"

fun where_toks :: "(text_col \<times> string) list \<Rightarrow> token list" where
  "where_toks [] = []"
| "where_toks [p] = pred_toks p"
| "where_toks (p # q # ps) = pred_toks p @ TIdent ''AND'' # where_toks (q # ps)"

fun group_toks :: "text_col list \<Rightarrow> token list" where
  "group_toks [] = []"
| "group_toks [c] = [TIdent (col_name c)]"
| "group_toks (c # d # cs) = TIdent (col_name c) # TComma # group_toks (d # cs)"

definition wtoks :: "(text_col \<times> string) list \<Rightarrow> token list" where
  "wtoks ps = (if ps = [] then [] else TIdent ''WHERE'' # where_toks ps)"

definition gtoks :: "text_col list \<Rightarrow> token list" where
  "gtoks cs = (if cs = [] then [] else TIdent ''GROUP'' # TIdent ''BY'' # group_toks cs)"

text \<open>The tokens read so far, with the token that is being read.\<close>

fun flush :: "lex_state \<Rightarrow> token list" where
  "flush LexFail = []"
| "flush (Lex Idle ts) = ts"
| "flush (Lex (Word w) ts) = TIdent (rev w) # ts"
| "flush (Lex (Str s) ts) = ts"
| "flush (Lex (StrQ s) ts) = TStr (rev s) # ts"

fun ready :: "lex_state \<Rightarrow> bool" where
  "ready LexFail = False"
| "ready (Lex (Str s) ts) = False"
| "ready (Lex _ ts) = True"

subsection \<open>The statistics of the response\<close>

text \<open>
  The nine statistics over a set of rows, as the handler names them, written with sums,
  maxima, minima and the number of distinct Order IDs; the payload over no rows; and the
  requests whose filter values are plain.
\<close>

definition group_stats :: "order_row list \<Rightarrow> (string \<times> pyval) list" where
  "group_stats rows =
     [(''Average Order Processing Time in days'',
         PFloat (real_of_int (sum_list (map OrderProcessingTime rows)) / real (length rows))),
      (''Average Gross Margin'', PFloat (sum_list (map GrossMargin rows) / real (length rows))),
      (''Average Units Sold'',
         PFloat (real_of_int (sum_list (map UnitsSold rows)) / real (length rows))),
      (''Max Units Sold'', PInt (Max (UnitsSold ` set rows))),
      (''Min Units Sold'', PInt (Min (UnitsSold ` set rows))),
      (''Total Units Sold'', PInt (sum_list (map UnitsSold rows))),
      (''Total Revenue'', PFloat (sum_list (map TotalRevenue rows))),
      (''Total Profit'', PFloat (sum_list (map TotalProfit rows))),
      (''Number of Orders'', PInt (int (card (OrderID ` set rows))))]"

definition plain_filters :: "(string \<rightharpoonup> string) \<Rightarrow> bool" where
  "plain_filters f = (\<forall>k \<in> filter_keys. \<forall>v. f k = Some v \<longrightarrow> plain_value v)"


definition null_stats :: "(string \<times> pyval) list" where
  "null_stats =
     [(''Average Order Processing Time in days'', PNone),
      (''Average Gross Margin'', PNone),
      (''Average Units Sold'', PNone),
      (''Max Units Sold'', PNone),
      (''Min Units Sold'', PNone),
      (''Total Units Sold'', PNone),
      (''Total Revenue'', PNone),
      (''Total Profit'', PNone),
      (''Number of Orders'', PInt 0)]"

text \<open>The 64-bit range of SQLite's integers; a list of integers overflows when the sum of
  one of its prefixes lies outside it (\<open>SUM\<close> adds the values one by one). \<open>key_le\<close> is the
  order of group keys, equal keys included.\<close>

definition in_int64 :: "int \<Rightarrow> bool" where
  "in_int64 x = (- (2 ^ 63) \<le> x \<and> x < 2 ^ 63)"

definition sum_overflows :: "int list \<Rightarrow> bool" where
  "sum_overflows xs = list_ex (\<lambda>n. \<not> in_int64 (sum_list (take n xs))) [0..<Suc (length xs)]"

definition key_le :: "string list \<Rightarrow> string list \<Rightarrow> bool" where
  "key_le k k' = (k = k' \<or> key_less k k')"

section \<open>Properties of \<open>transform\<close>\<close>

subsection \<open>Dictionaries and sequencing\<close>

lemma map_of_setitem: "map_of (setitem d k v) k' = (if k' = k then Some v else map_of d k')"
  by (induction d) auto

lemma getitem_Inr: "getitem d k = Inr v \<longleftrightarrow> map_of d k = Some v"
  by (simp add: getitem_def split: option.splits)

lemma bindE_Inr: "bindE m f = Inr y \<longleftrightarrow> (\<exists>x. m = Inr x \<and> f x = Inr y)"
  by (cases m) (simp_all add: bindE_def)

lemma bindE_Inl: "bindE m f = Inl e \<longleftrightarrow> (m = Inl e \<or> (\<exists>x. m = Inr x \<and> f x = Inl e))"
  by (cases m) (simp_all add: bindE_def)

lemma map_of_raw_cells: "map_of (raw_cells raw) k = map_option cell_of_raw (map_of raw k)"
  by (induction raw) (auto simp: raw_cells_def)

subsection \<open>The loop body\<close>

lemma transform_row_Inr:
  assumes "transform_row fl raw = Inr r'"
  shows "\<exists>od sd order_date ship_date p tp tr total_profit total_revenue.
           map_of (raw_cells raw) ''Order Date'' = Some od \<and> strptime od = Inr order_date \<and>
           map_of (raw_cells raw) ''Ship Date'' = Some sd \<and> strptime sd = Inr ship_date \<and>
           map_of (raw_cells raw) ''Order Priority'' = Some p \<and>
           map_of (raw_cells raw) ''Total Profit'' = Some tp \<and> py_float fl tp = Inr total_profit \<and>
           map_of (raw_cells raw) ''Total Revenue'' = Some tr \<and> py_float fl tr = Inr total_revenue \<and>
           r' = setitem (setitem (setitem (raw_cells raw) ''Order Processing Time''
                    (CInt (days_between ship_date order_date)))
                  ''Order Priority'' (CStr (priority_get p)))
                  ''Gross Margin'' (if total_revenue \<noteq> 0 then CFloat (total_profit / total_revenue) else CInt 0)"
  using assms
  unfolding transform_row_def Let_def raw_cells_def[symmetric] bindE_Inr getitem_Inr map_of_setitem
  by (auto simp: truediv_def bindE_Inr split: if_splits)

lemma transform_row_not_zerodiv: "transform_row fl raw \<noteq> Inl ZeroDivisionError"
  unfolding transform_row_def Let_def bindE_Inl
  by (auto simp: getitem_def strptime_def py_float_def truediv_def bindE_def Let_def split: option.splits cell.splits list.splits if_splits)

lemma getitem_order_id: "getitem r ''Order ID'' = Inr v \<longleftrightarrow> order_id r = Some v"
  by (simp add: getitem_Inr order_id_def)

lemma transform_row_order_id:
  assumes "transform_row fl raw = Inr r'"
  shows "map_of r' ''Order ID'' = map_option cell_of_raw (order_id raw)"
proof -
  from transform_row_Inr[OF assms] obtain a b c where
    "r' = setitem (setitem (setitem (raw_cells raw) ''Order Processing Time'' a) ''Order Priority'' b) ''Gross Margin'' c"
    by blast
  then show ?thesis by (simp add: map_of_setitem map_of_raw_cells order_id_def)
qed

lemma cell_of_raw_inj: "cell_of_raw a = cell_of_raw b \<Longrightarrow> a = b"
  by (cases a; cases b) auto

subsection \<open>The loop\<close>

lemma ids_Nil [simp]: "ids [] = {}"
  by (simp add: ids_def)

lemma ids_Cons: "order_id x = Some v \<Longrightarrow> seen \<union> ids (x # xs) = insert v seen \<union> ids xs"
  by (auto simp: ids_def)

lemma loop_append:
  "transform_loop fl seen acc (xs @ ys) =
     bindE (transform_loop fl seen acc xs) (\<lambda>acc'. transform_loop fl (seen \<union> ids xs) acc' ys)"
proof (induction xs arbitrary: seen acc)
  case Nil
  then show ?case by (simp add: bindE_def)
next
  case (Cons x xs)
  show ?case
  proof (cases "getitem x ''Order ID''")
    case (Inl e)
    then show ?thesis by (simp add: bindE_def)
  next
    case (Inr v)
    then have oid: "order_id x = Some v" by (simp add: getitem_order_id)
    note eq1 = ids_Cons[OF oid, of seen xs]
    show ?thesis
    proof (cases "v \<in> seen")
      case True
      then have "insert v seen = seen" by auto
      with Inr True Cons.IH[of seen acc] eq1 show ?thesis by simp
    next
      case False
      show ?thesis
      proof (cases "transform_row fl x")
        case (Inl e)
        with Inr False show ?thesis by (simp add: bindE_def)
      next
        case r: (Inr r')
        with Inr False Cons.IH[of "insert v seen" "acc @ [r']"] eq1 show ?thesis by simp
      qed
    qed
  qed
qed

lemma loop_all_seen:
  "\<forall>r \<in> set ys. \<exists>v. order_id r = Some v \<and> v \<in> seen \<Longrightarrow> transform_loop fl seen acc ys = Inr acc"
proof (induction ys)
  case Nil
  then show ?case by simp
next
  case (Cons y ys)
  then obtain v where "order_id y = Some v" "v \<in> seen" by auto
  then have "getitem y ''Order ID'' = Inr v" by (simp add: getitem_order_id)
  with Cons \<open>v \<in> seen\<close> show ?case by simp
qed

lemma loop_has_ids:
  "transform_loop fl seen acc xs = Inr out \<Longrightarrow> \<forall>r \<in> set xs. \<exists>v. order_id r = Some v"
proof (induction xs arbitrary: seen acc)
  case Nil
  then show ?case by simp
next
  case (Cons x xs)
  from Cons.prems obtain v where v: "getitem x ''Order ID'' = Inr v"
    by (cases "getitem x ''Order ID''") auto
  then have "order_id x = Some v" by (simp add: getitem_order_id)
  moreover have "\<forall>r \<in> set xs. \<exists>v. order_id r = Some v"
    using Cons.prems v Cons.IH
    by (auto split: if_splits sum.splits)
  ultimately show ?case by simp
qed

lemma ids_Cons_iff: "w \<in> ids (x # xs) \<longleftrightarrow> order_id x = Some w \<or> w \<in> ids xs"
  by (auto simp: ids_def)

lemma loop_out:
  "transform_loop fl seen acc rs = Inr out \<Longrightarrow>
   \<exists>new. out = acc @ new \<and> distinct (map (\<lambda>r'. map_of r' ''Order ID'') new) \<and>
     (\<forall>r' \<in> set new. \<exists>pre r post v. rs = pre @ r # post \<and> order_id r = Some v \<and>
         v \<notin> seen \<and> v \<notin> ids pre \<and> transform_row fl r = Inr r')"
proof (induction rs arbitrary: seen acc out)
  case Nil
  then show ?case by simp
next
  case (Cons x rs)
  from Cons.prems obtain v where v: "getitem x ''Order ID'' = Inr v"
    by (cases "getitem x ''Order ID''") auto
  then have oid: "order_id x = Some v" by (simp add: getitem_order_id)
  show ?case
  proof (cases "v \<in> seen")
    case True
    with Cons.prems v have "transform_loop fl seen acc rs = Inr out" by simp
    from Cons.IH[OF this] obtain new where new: "out = acc @ new"
      "distinct (map (\<lambda>r'. map_of r' ''Order ID'') new)"
      "\<forall>r' \<in> set new. \<exists>pre r post w. rs = pre @ r # post \<and> order_id r = Some w \<and>
         w \<notin> seen \<and> w \<notin> ids pre \<and> transform_row fl r = Inr r'"
      by blast
    have "\<forall>r' \<in> set new. \<exists>pre r post w. x # rs = pre @ r # post \<and> order_id r = Some w \<and>
         w \<notin> seen \<and> w \<notin> ids pre \<and> transform_row fl r = Inr r'"
    proof
      fix r' assume "r' \<in> set new"
      with new(3) obtain pre r post w where h: "rs = pre @ r # post" "order_id r = Some w"
        "w \<notin> seen" "w \<notin> ids pre" "transform_row fl r = Inr r'" by blast
      from h(3) True have "w \<noteq> v" by auto
      with h(4) oid have "w \<notin> ids (x # pre)" by (simp add: ids_Cons_iff)
      moreover have "x # rs = (x # pre) @ r # post" using h(1) by simp
      ultimately show "\<exists>pre r post w. x # rs = pre @ r # post \<and> order_id r = Some w \<and>
         w \<notin> seen \<and> w \<notin> ids pre \<and> transform_row fl r = Inr r'"
        using h(2,3,5) by blast
    qed
    with new(1,2) show ?thesis by blast
  next
    case False
    with Cons.prems v obtain x' where x': "transform_row fl x = Inr x'"
      and rest: "transform_loop fl (insert v seen) (acc @ [x']) rs = Inr out"
      by (cases "transform_row fl x") auto
    from Cons.IH[OF rest] obtain new where new: "out = (acc @ [x']) @ new"
      "distinct (map (\<lambda>r'. map_of r' ''Order ID'') new)"
      "\<forall>r' \<in> set new. \<exists>pre r post w. rs = pre @ r # post \<and> order_id r = Some w \<and>
         w \<notin> insert v seen \<and> w \<notin> ids pre \<and> transform_row fl r = Inr r'"
      by blast
    have x'id: "map_of x' ''Order ID'' = Some (cell_of_raw v)"
      using transform_row_order_id[OF x'] oid by simp
    have notin: "map_of x' ''Order ID'' \<notin> (\<lambda>r'. map_of r' ''Order ID'') ` set new"
    proof
      assume "map_of x' ''Order ID'' \<in> (\<lambda>r'. map_of r' ''Order ID'') ` set new"
      then obtain r' where r': "r' \<in> set new" "map_of r' ''Order ID'' = map_of x' ''Order ID''" by auto
      with new(3) obtain r w where "order_id r = Some w" "w \<noteq> v" "transform_row fl r = Inr r'" by blast
      with transform_row_order_id[of fl r r'] have "map_of r' ''Order ID'' = Some (cell_of_raw w)" by simp
      with r'(2) x'id have "cell_of_raw w = cell_of_raw v" by simp
      with \<open>w \<noteq> v\<close> show False by (auto dest: cell_of_raw_inj)
    qed
    have "out = acc @ (x' # new)" using new(1) by simp
    moreover have "distinct (map (\<lambda>r'. map_of r' ''Order ID'') (x' # new))"
      using new(2) notin by simp
    moreover have "\<forall>r' \<in> set (x' # new). \<exists>pre r post w. x # rs = pre @ r # post \<and> order_id r = Some w \<and>
         w \<notin> seen \<and> w \<notin> ids pre \<and> transform_row fl r = Inr r'"
    proof
      fix r' assume "r' \<in> set (x' # new)"
      then consider "r' = x'" | "r' \<in> set new" by auto
      then show "\<exists>pre r post w. x # rs = pre @ r # post \<and> order_id r = Some w \<and>
         w \<notin> seen \<and> w \<notin> ids pre \<and> transform_row fl r = Inr r'"
      proof cases
        case 1
        have "x # rs = [] @ x # rs" by simp
        moreover have "v \<notin> ids []" by simp
        ultimately show ?thesis using oid False x' 1 by blast
      next
        case 2
        with new(3) obtain pre r post w where h: "rs = pre @ r # post" "order_id r = Some w"
          "w \<notin> insert v seen" "w \<notin> ids pre" "transform_row fl r = Inr r'" by blast
        from h(3) have "w \<noteq> v" "w \<notin> seen" by auto
        with h(4) oid have "w \<notin> ids (x # pre)" by (simp add: ids_Cons_iff)
        moreover have "x # rs = (x # pre) @ r # post" using h(1) by simp
        ultimately show ?thesis using h(2,5) \<open>w \<notin> seen\<close> by blast
      qed
    qed
    ultimately show ?thesis by blast
  qed
qed



lemma loop_not_zerodiv: "transform_loop fl seen acc rs \<noteq> Inl ZeroDivisionError"
proof (induction rs arbitrary: seen acc)
  case Nil
  then show ?case by simp
next
  case (Cons x rs)
  show ?case
  proof (cases "getitem x ''Order ID''")
    case (Inl e)
    then have "e = KeyError ''Order ID''" by (auto simp: getitem_def split: option.splits)
    with Inl show ?thesis by simp
  next
    case (Inr v)
    show ?thesis
    proof (cases "transform_row fl x")
      case (Inl e)
      with transform_row_not_zerodiv[of fl x] have "e \<noteq> ZeroDivisionError" by auto
      with Inl Inr Cons.IH show ?thesis by simp
    next
      case r: (Inr x')
      with Inr Cons.IH show ?thesis by simp
    qed
  qed
qed

lemma transform_emitted:
  assumes "transform fl rows = Inr out" and "r' \<in> set out"
  shows "\<exists>r \<in> set rows. transform_row fl r = Inr r'"
proof -
  from assms(1) have "transform_loop fl {} [] rows = Inr out" by (simp add: transform_def)
  from loop_out[OF this] obtain new where new: "out = [] @ new"
    "\<forall>r' \<in> set new. \<exists>pre r post v. rows = pre @ r # post \<and> order_id r = Some v \<and>
         v \<notin> {} \<and> v \<notin> ids pre \<and> transform_row fl r = Inr r'"
    by blast
  from new(1) assms(2) have "r' \<in> set new" by simp
  with new(2) obtain pre r post where "rows = pre @ r # post" "transform_row fl r = Inr r'"
    by blast
  then have "r \<in> set rows" by simp
  with \<open>transform_row fl r = Inr r'\<close> show ?thesis by blast
qed

lemma transform_row_fields:
  assumes "transform_row fl raw = Inr r'"
  shows "\<exists>od sd order_date ship_date p tp tr total_profit total_revenue.
           map_of (raw_cells raw) ''Order Date'' = Some od \<and> strptime od = Inr order_date \<and>
           map_of (raw_cells raw) ''Ship Date'' = Some sd \<and> strptime sd = Inr ship_date \<and>
           map_of (raw_cells raw) ''Order Priority'' = Some p \<and>
           map_of (raw_cells raw) ''Total Profit'' = Some tp \<and> py_float fl tp = Inr total_profit \<and>
           map_of (raw_cells raw) ''Total Revenue'' = Some tr \<and> py_float fl tr = Inr total_revenue \<and>
           map_of r' ''Order Processing Time'' = Some (CInt (days_between ship_date order_date)) \<and>
           map_of r' ''Order Priority'' = Some (CStr (priority_get p)) \<and>
           map_of r' ''Gross Margin'' =
             Some (if total_revenue \<noteq> 0 then CFloat (total_profit / total_revenue) else CInt 0)"
proof -
  from transform_row_Inr[OF assms] obtain od sd order_date ship_date p tp tr total_profit total_revenue
    where h: "map_of (raw_cells raw) ''Order Date'' = Some od" "strptime od = Inr order_date"
           "map_of (raw_cells raw) ''Ship Date'' = Some sd" "strptime sd = Inr ship_date"
           "map_of (raw_cells raw) ''Order Priority'' = Some p"
           "map_of (raw_cells raw) ''Total Profit'' = Some tp" "py_float fl tp = Inr total_profit"
           "map_of (raw_cells raw) ''Total Revenue'' = Some tr" "py_float fl tr = Inr total_revenue"
           "r' = setitem (setitem (setitem (raw_cells raw) ''Order Processing Time''
                    (CInt (days_between ship_date order_date)))
                  ''Order Priority'' (CStr (priority_get p)))
                  ''Gross Margin'' (if total_revenue \<noteq> 0 then CFloat (total_profit / total_revenue) else CInt 0)"
    by blast
  have "map_of r' ''Order Processing Time'' = Some (CInt (days_between ship_date order_date))"
    and "map_of r' ''Order Priority'' = Some (CStr (priority_get p))"
    and "map_of r' ''Gross Margin'' =
             Some (if total_revenue \<noteq> 0 then CFloat (total_profit / total_revenue) else CInt 0)"
    unfolding h(10) by (simp_all add: map_of_setitem)
  with h(1-9) show ?thesis by blast
qed

lemma transform_row_total:
  assumes "map_of (raw_cells raw) ''Order Date'' = Some od" "strptime od = Inr order_date"
    "map_of (raw_cells raw) ''Ship Date'' = Some sd" "strptime sd = Inr ship_date"
    "map_of (raw_cells raw) ''Order Priority'' = Some p"
    "map_of (raw_cells raw) ''Total Profit'' = Some tp" "py_float fl tp = Inr total_profit"
    "map_of (raw_cells raw) ''Total Revenue'' = Some tr" "py_float fl tr = Inr total_revenue"
  shows "\<exists>r'. transform_row fl raw = Inr r'"
  using assms
  by (simp add: transform_row_def Let_def bindE_def getitem_def map_of_setitem truediv_def)

subsection \<open>The calendar\<close>





lemma days_in_month_tab:
  "days_in_month y 1 = 31"
  "days_in_month y 2 = (if is_leap y then 29 else 28)"
  "days_in_month y 3 = 31"
  "days_in_month y 4 = 30"
  "days_in_month y 5 = 31"
  "days_in_month y 6 = 30"
  "days_in_month y 7 = 31"
  "days_in_month y 8 = 31"
  "days_in_month y 9 = 30"
  "days_in_month y 10 = 31"
  "days_in_month y 11 = 30"
  "days_in_month y 12 = 31"
  by (simp_all add: days_in_month_def DAYS_IN_MONTH_def eval_nat_numeral)

lemma month_cases:
  assumes "1 \<le> (m::int)" "m \<le> 12"
  shows "m = 1 \<or> m = 2 \<or> m = 3 \<or> m = 4 \<or> m = 5 \<or> m = 6 \<or> m = 7 \<or> m = 8 \<or> m = 9 \<or> m = 10 \<or> m = 11 \<or> m = 12"
  using assms by arith


lemma valid_next_day:
  assumes "valid_date dt" and "dt \<noteq> (9999, 12, 31)"
  shows "valid_date (next_day dt)"
proof -
  obtain y m d where dt: "dt = (y, m, d)" by (cases dt) auto
  from assms dt have m: "1 \<le> m" "m \<le> 12" and d: "1 \<le> d" "d \<le> days_in_month y m"
    and y: "1 \<le> y" "y \<le> 9999"
    by (auto simp: valid_date_def)
  from month_cases[OF m] show ?thesis
    using d y assms(2) unfolding dt
    by (elim disjE)
       (auto simp add: next_day_def valid_date_def days_in_month_tab)
qed

subsection \<open>Evaluation on the sample rows\<close>

lemmas strptime_eval = strptime_def format_regex_match_def char_in_def is_digit_def
  int_of_group_def valid_date_def days_in_month_def DAYS_IN_MONTH_def is_leap_def

lemmas transform_eval = transform_def transform_row_def raw_cells_def bindE_def getitem_def
  strptime_eval days_between_def toordinal_def ymd2ord_def days_before_month_def
  days_before_year_def priority_get_def order_priority_mapping_def py_float_def truediv_def

lemmas sample_defs = float_sample_def sample_row1_def sample_row2_def sample_row3_def
  sample_out1_def sample_out2_def

lemma sample_transform_row1: "transform_row float_sample sample_row1 = Inr sample_out1"
  by (simp add: transform_eval sample_defs)

lemma sample_transform_row2: "transform_row float_sample sample_row2 = Inr sample_out2"
  by (simp add: transform_eval sample_defs)


lemma sample_getitem:
  "getitem sample_row1 ''Order ID'' = Inr (Some ''100'')"
  "getitem sample_row2 ''Order ID'' = Inr (Some ''101'')"
  "getitem sample_row3 ''Order ID'' = Inr (Some ''100'')"
  by (simp_all add: getitem_def sample_defs)

lemma sample_transform:
  "transform float_sample [sample_row1, sample_row2, sample_row3] = Inr [sample_out1, sample_out2]"
  by (simp add: transform_def sample_getitem sample_transform_row1 sample_transform_row2)


section \<open>Claims about \<open>transform\<close>\<close>




text \<open>
  C5. \<open>transform\<close> on a row sequence concatenated with itself gives what it gives on the
  sequence alone: the same output rows, or the same exception.
\<close>

theorem transform_twice: "transform fl (L @ L) = transform fl L"
proof (cases "transform fl L")
  case (Inl e)
  then show ?thesis by (simp add: transform_def loop_append bindE_def)
next
  case (Inr out)
  then have has: "\<forall>r \<in> set L. \<exists>v. order_id r = Some v"
    unfolding transform_def by (rule loop_has_ids)
  have "transform_loop fl ({} \<union> ids L) out L = Inr out"
  proof (rule loop_all_seen, intro ballI)
    fix r assume "r \<in> set L"
    with has obtain v where "order_id r = Some v" by auto
    with \<open>r \<in> set L\<close> show "\<exists>v. order_id r = Some v \<and> v \<in> {} \<union> ids L"
      by (auto simp: ids_def)
  qed
  with Inr show ?thesis by (simp add: transform_def loop_append bindE_def)
qed

text \<open>
  C6. \<open>transform\<close> never ends in a division fault, and in every row it emits Gross Margin is
  the quotient of the row's Total Profit by its Total Revenue when the revenue is not zero,
  and the integer 0 when the revenue is zero.
\<close>

theorem gross_margin_total:
  "transform fl rows \<noteq> Inl ZeroDivisionError \<and>
   (\<forall>out. transform fl rows = Inr out \<longrightarrow>
      (\<forall>r' \<in> set out. \<exists>r \<in> set rows. \<exists>tp tr total_profit total_revenue.
         transform_row fl r = Inr r' \<and>
         map_of (raw_cells r) ''Total Profit'' = Some tp \<and> py_float fl tp = Inr total_profit \<and>
         map_of (raw_cells r) ''Total Revenue'' = Some tr \<and> py_float fl tr = Inr total_revenue \<and>
         map_of r' ''Gross Margin'' =
           Some (if total_revenue = 0 then CInt 0 else CFloat (total_profit / total_revenue))))"
proof -
  have a: "transform fl rows \<noteq> Inl ZeroDivisionError"
    unfolding transform_def by (rule loop_not_zerodiv)
  have b: "\<exists>r \<in> set rows. \<exists>tp tr total_profit total_revenue.
         transform_row fl r = Inr r' \<and>
         map_of (raw_cells r) ''Total Profit'' = Some tp \<and> py_float fl tp = Inr total_profit \<and>
         map_of (raw_cells r) ''Total Revenue'' = Some tr \<and> py_float fl tr = Inr total_revenue \<and>
         map_of r' ''Gross Margin'' =
           Some (if total_revenue = 0 then CInt 0 else CFloat (total_profit / total_revenue))"
    if "transform fl rows = Inr out" "r' \<in> set out" for out r'
  proof -
    from transform_emitted[OF that] obtain r where r: "r \<in> set rows" "transform_row fl r = Inr r'"
      by blast
    from transform_row_fields[OF r(2)] obtain tp tr total_profit total_revenue where
      "map_of (raw_cells r) ''Total Profit'' = Some tp" "py_float fl tp = Inr total_profit"
      "map_of (raw_cells r) ''Total Revenue'' = Some tr" "py_float fl tr = Inr total_revenue"
      "map_of r' ''Gross Margin'' =
         Some (if total_revenue \<noteq> 0 then CFloat (total_profit / total_revenue) else CInt 0)"
      by blast
    with r show ?thesis by (intro bexI[of _ r] exI[of _ tp] exI[of _ tr] exI[of _ total_profit]
          exI[of _ total_revenue]) auto
  qed
  from a b show ?thesis by blast
qed

theorem gross_margin_total_witness:
  "transform float_sample [sample_row1, sample_row2, sample_row3] = Inr [sample_out1, sample_out2] \<and>
   (\<exists>r \<in> set [sample_row1, sample_row2, sample_row3]. \<exists>tp tr total_profit total_revenue.
       transform_row float_sample r = Inr sample_out2 \<and>
       map_of (raw_cells r) ''Total Profit'' = Some tp \<and> py_float float_sample tp = Inr total_profit \<and>
       map_of (raw_cells r) ''Total Revenue'' = Some tr \<and> py_float float_sample tr = Inr total_revenue \<and>
       map_of sample_out2 ''Gross Margin'' =
         Some (if total_revenue = 0 then CInt 0 else CFloat (total_profit / total_revenue))) \<and>
   map_of sample_out2 ''Gross Margin'' = Some (CInt 0) \<and>
   map_of sample_out1 ''Gross Margin'' = Some (CFloat (4 / 10))"
proof -
  from gross_margin_total[of float_sample "[sample_row1, sample_row2, sample_row3]"]
  have "\<forall>out. transform float_sample [sample_row1, sample_row2, sample_row3] = Inr out \<longrightarrow>
      (\<forall>r' \<in> set out. \<exists>r \<in> set [sample_row1, sample_row2, sample_row3]. \<exists>tp tr total_profit total_revenue.
         transform_row float_sample r = Inr r' \<and>
         map_of (raw_cells r) ''Total Profit'' = Some tp \<and> py_float float_sample tp = Inr total_profit \<and>
         map_of (raw_cells r) ''Total Revenue'' = Some tr \<and> py_float float_sample tr = Inr total_revenue \<and>
         map_of r' ''Gross Margin'' =
           Some (if total_revenue = 0 then CInt 0 else CFloat (total_profit / total_revenue)))"
    by (rule conjunct2)
  from this[rule_format, OF sample_transform, of sample_out2]
  have "\<exists>r \<in> set [sample_row1, sample_row2, sample_row3]. \<exists>tp tr total_profit total_revenue.
       transform_row float_sample r = Inr sample_out2 \<and>
       map_of (raw_cells r) ''Total Profit'' = Some tp \<and> py_float float_sample tp = Inr total_profit \<and>
       map_of (raw_cells r) ''Total Revenue'' = Some tr \<and> py_float float_sample tr = Inr total_revenue \<and>
       map_of sample_out2 ''Gross Margin'' =
         Some (if total_revenue = 0 then CInt 0 else CFloat (total_profit / total_revenue))"
    by simp
  moreover have "map_of sample_out2 ''Gross Margin'' = Some (CInt 0)"
    by (simp add: sample_out2_def)
  moreover have "map_of sample_out1 ''Gross Margin'' = Some (CFloat (4 / 10))"
    by (simp add: sample_out1_def)
  ultimately show ?thesis using sample_transform by blast
qed





text \<open>
  C9. The priority code is normalized by the table H to High, C to Critical, L to Low,
  M to Medium; every other string (X and the empty string among them) and a missing value
  give Unknown. Every emitted row carries the normalized code of the row it comes from, and
  the code never decides whether a row is accepted: a row that is accepted stays accepted
  with any other value under Order Priority.
\<close>

theorem order_priority_normalized:
  "priority_get (CStr ''H'') = ''High'' \<and> priority_get (CStr ''C'') = ''Critical'' \<and>
   priority_get (CStr ''L'') = ''Low'' \<and> priority_get (CStr ''M'') = ''Medium'' \<and>
   priority_get (CStr ''X'') = ''Unknown'' \<and> priority_get (CStr '''') = ''Unknown'' \<and>
   priority_get CNone = ''Unknown'' \<and>
   (s \<notin> {''H'', ''C'', ''L'', ''M''} \<longrightarrow> priority_get (CStr s) = ''Unknown'') \<and>
   (\<forall>out. transform fl rows = Inr out \<longrightarrow>
      (\<forall>r' \<in> set out. \<exists>r \<in> set rows. \<exists>p.
         transform_row fl r = Inr r' \<and> map_of (raw_cells r) ''Order Priority'' = Some p \<and>
         map_of r' ''Order Priority'' = Some (CStr (priority_get p)))) \<and>
   (\<forall>raw p q. map_of raw ''Order Priority'' = Some p \<and> (\<exists>r'. transform_row fl raw = Inr r') \<longrightarrow>
      (\<exists>r'. transform_row fl (setitem raw ''Order Priority'' q) = Inr r'))"
proof -
  have tab: "priority_get (CStr ''H'') = ''High''" "priority_get (CStr ''C'') = ''Critical''"
    "priority_get (CStr ''L'') = ''Low''" "priority_get (CStr ''M'') = ''Medium''"
    "priority_get (CStr ''X'') = ''Unknown''" "priority_get (CStr '''') = ''Unknown''"
    "priority_get CNone = ''Unknown''"
    by (simp_all add: priority_get_def order_priority_mapping_def)
  have other: "priority_get (CStr s) = ''Unknown''" if "s \<notin> {''H'', ''C'', ''L'', ''M''}"
    using that by (simp add: priority_get_def order_priority_mapping_def)
  have em: "\<exists>r \<in> set rows. \<exists>p.
         transform_row fl r = Inr r' \<and> map_of (raw_cells r) ''Order Priority'' = Some p \<and>
         map_of r' ''Order Priority'' = Some (CStr (priority_get p))"
    if "transform fl rows = Inr out" "r' \<in> set out" for out r'
  proof -
    from transform_emitted[OF that] obtain r where r: "r \<in> set rows" "transform_row fl r = Inr r'"
      by blast
    from transform_row_fields[OF r(2)] obtain p where
      "map_of (raw_cells r) ''Order Priority'' = Some p"
      "map_of r' ''Order Priority'' = Some (CStr (priority_get p))"
      by blast
    with r show ?thesis by blast
  qed
  have tot: "\<exists>r'. transform_row fl (setitem raw ''Order Priority'' q) = Inr r'"
    if "map_of raw ''Order Priority'' = Some p" "transform_row fl raw = Inr r0" for raw p q r0
  proof -
    from transform_row_fields[OF that(2)] obtain od sd order_date ship_date tp tr
      total_profit total_revenue where h:
      "map_of (raw_cells raw) ''Order Date'' = Some od" "strptime od = Inr order_date"
      "map_of (raw_cells raw) ''Ship Date'' = Some sd" "strptime sd = Inr ship_date"
      "map_of (raw_cells raw) ''Total Profit'' = Some tp" "py_float fl tp = Inr total_profit"
      "map_of (raw_cells raw) ''Total Revenue'' = Some tr" "py_float fl tr = Inr total_revenue"
      by blast
    let ?raw = "setitem raw ''Order Priority'' q"
    have m: "map_of (raw_cells ?raw) k = (if k = ''Order Priority'' then Some (cell_of_raw q)
               else map_of (raw_cells raw) k)" for k
      by (simp add: map_of_raw_cells map_of_setitem)
    show ?thesis
      by (rule transform_row_total[where od=od and sd=sd and tp=tp and tr=tr and p="cell_of_raw q"])
         (simp_all add: m h)
  qed
  from tab other em tot show ?thesis by blast
qed

theorem order_priority_normalized_witness:
  "transform float_sample [sample_row1, sample_row2, sample_row3] = Inr [sample_out1, sample_out2] \<and>
   ''X'' \<notin> {''H'', ''C'', ''L'', ''M''} \<and> priority_get (CStr ''X'') = ''Unknown'' \<and>
   (\<exists>r \<in> set [sample_row1, sample_row2, sample_row3]. \<exists>p.
       transform_row float_sample r = Inr sample_out2 \<and>
       map_of (raw_cells r) ''Order Priority'' = Some p \<and>
       map_of sample_out2 ''Order Priority'' = Some (CStr (priority_get p))) \<and>
   map_of sample_out1 ''Order Priority'' = Some (CStr ''High'') \<and>
   map_of sample_out2 ''Order Priority'' = Some (CStr ''Unknown'') \<and>
   (\<exists>r'. transform_row float_sample (setitem sample_row1 ''Order Priority'' None) = Inr r')"
proof -
  note t = order_priority_normalized[of "''X''" float_sample "[sample_row1, sample_row2, sample_row3]"]
  have x: "''X'' \<notin> {''H'', ''C'', ''L'', ''M''}" by simp
  from t have "''X'' \<notin> {''H'', ''C'', ''L'', ''M''} \<longrightarrow> priority_get (CStr ''X'') = ''Unknown''"
    by (elim conjE)
  with x have a: "priority_get (CStr ''X'') = ''Unknown''" by simp
  from t have "\<forall>out. transform float_sample [sample_row1, sample_row2, sample_row3] = Inr out \<longrightarrow>
      (\<forall>r' \<in> set out. \<exists>r \<in> set [sample_row1, sample_row2, sample_row3]. \<exists>p.
         transform_row float_sample r = Inr r' \<and> map_of (raw_cells r) ''Order Priority'' = Some p \<and>
         map_of r' ''Order Priority'' = Some (CStr (priority_get p)))"
    by (elim conjE)
  from this[rule_format, OF sample_transform, of sample_out2]
  have b: "\<exists>r \<in> set [sample_row1, sample_row2, sample_row3]. \<exists>p.
       transform_row float_sample r = Inr sample_out2 \<and>
       map_of (raw_cells r) ''Order Priority'' = Some p \<and>
       map_of sample_out2 ''Order Priority'' = Some (CStr (priority_get p))"
    by simp
  from t have "\<forall>raw p q. map_of raw ''Order Priority'' = Some p \<and>
        (\<exists>r'. transform_row float_sample raw = Inr r') \<longrightarrow>
      (\<exists>r'. transform_row float_sample (setitem raw ''Order Priority'' q) = Inr r')"
    by (elim conjE)
  from this[rule_format, of sample_row1 "Some ''H''" None]
  have c: "\<exists>r'. transform_row float_sample (setitem sample_row1 ''Order Priority'' None) = Inr r'"
    using sample_transform_row1 by (simp add: sample_row1_def)
  have d: "map_of sample_out1 ''Order Priority'' = Some (CStr ''High'')"
    "map_of sample_out2 ''Order Priority'' = Some (CStr ''Unknown'')"
    by (simp_all add: sample_out1_def sample_out2_def)
  from sample_transform x a b c d show ?thesis by blast
qed

section \<open>Properties of \<open>lambda_handler\<close>\<close>

subsection \<open>Running the two query texts\<close>

lemma strip_prefix_append: "strip_prefix p (p @ r) = Some r"
  by (induction p) auto

lemma strip_agg_of_filters: "strip_prefix sql_query_agg_base (sql_query_filters_base @ r) = None"
  by (simp add: sql_query_agg_base_def sql_query_filters_base_def newline_def)

lemma execute_agg:
  "execute en table (sql_query_agg_base @ rest) =
     (case parse_tail rest of Some (w, g) \<Rightarrow> select_agg w g table
      | None \<Rightarrow> execute_other en (sql_query_agg_base @ rest) table)"
  by (simp add: execute_def strip_prefix_append)

lemma execute_filters:
  "execute en table (sql_query_filters_base @ rest) =
     (if rest = [] \<or> hd rest = CHR '' '' then
        (case parse_tail rest of
           Some (w, []) \<Rightarrow> Inr (select_star w table)
         | _ \<Rightarrow> execute_other en (sql_query_filters_base @ rest) table)
      else execute_other en (sql_query_filters_base @ rest) table)"
  by (simp add: execute_def strip_prefix_append strip_agg_of_filters)

lemma parse_tail_Nil: "parse_tail [] = Some (None, [])"
  by (simp add: parse_tail_def tokenize_def)

lemma execute_filters_base:
  "execute en table sql_query_filters_base = Inr (map row_tuple table)"
  using execute_filters[of en table "[]"]
  by (simp add: parse_tail_Nil select_star_def where_holds_def)

lemma execute_agg_base:
  "execute en table sql_query_agg_base = select_agg None [] table"
  using execute_agg[of en table "[]"] by (simp add: parse_tail_Nil)

lemmas execute_eval = execute_agg execute_filters execute_agg_base execute_filters_base

lemmas lex_eval = tokenize_def idle_step_def quote_def is_alpha_def is_word_char_def is_digit_def
  char_in_def

lemmas parse_eval = parse_tail_def lex_eval parse_and_def parse_or_def text_column_def

lemmas select_eval = select_agg_def select_star_def where_holds_def groups_def group_keys_def
  group_key_def agg_tuple_def avg_real_def max_int_def min_int_def sum_real_def
  count_distinct_def row_tuple_def

lemmas text_eval = sql_query_filters_def sql_query_agg_def where_clause_def group_by_clause_def
  query_filters_def filter_clause_def

lemmas handler_eval = lambda_handler_def handler_body_def get_Filters_def get_Group_By_def
  run_queries_def bindS_def
  aggregations_def tuple_item_def py_int_def pyval_of_def dict_update_def

lemmas sample_query_defs = sample_env_def sample_event_def sample_asia_def sample_europe_def
  sample_blank_def

subsection \<open>What the handler reads of the request\<close>

lemma query_filters_cong:
  assumes "\<forall>k \<in> filter_keys. f k = f' k"
  shows "query_filters f = query_filters f'"
  using assms by (simp add: query_filters_def filter_clause_def filter_keys_def)

lemma handler_filters_cong:
  assumes "query_filters f = query_filters f'"
  shows "lambda_handler en (ev\<lparr>ev_Filters := Some f\<rparr>) = lambda_handler en (ev\<lparr>ev_Filters := Some f'\<rparr>)"
  using assms
  by (simp add: lambda_handler_def handler_body_def get_Filters_def get_Group_By_def
        run_queries_def sql_query_filters_def sql_query_agg_def where_clause_def)

lemma filter_clause_blank:
  "f k = Some [] \<Longrightarrow> filter_clause f k col = [] \<and> filter_clause (f(k := None)) k col = []"
  by (simp add: filter_clause_def)


lemma handler_missing_parameter:
  assumes "ev_bucket_name ev \<in> {None, Some []} \<or> ev_key ev \<in> {None, Some []}"
  shows "lambda_handler en ev =
     dict_update [(''statusCode'', PInt 500),
                  (''error'', PStr ''Both 'bucket_name' and 'key' are required.'')]
       (runtime_metrics en)"
  using assms by (auto simp: lambda_handler_def handler_body_def)

lemma handler_download_fails:
  assumes "b \<noteq> []" "k \<noteq> []" "download en b k = Inl msg"
  shows "lambda_handler en \<lparr>ev_bucket_name = Some b, ev_key = Some k, ev_Filters = fo, ev_Group_By = go\<rparr> =
     dict_update [(''statusCode'', PInt 500), (''error'', PStr msg)] (runtime_metrics en)"
  using assms by (simp add: lambda_handler_def handler_body_def bindS_def)


subsection \<open>The generated clauses are read as they were meant\<close>

lemma text_column_col_name: "text_column (col_name c) = Some c"
  by (cases c) (simp_all add: text_column_def)

lemma query_filters_pairs: "query_filters f = map pred_text (filter_pairs f)"
  by (simp add: query_filters_def filter_pairs_def filter_clause_def filter_pair_def pred_text_def
      split: option.splits)

lemma lex_literal:
  "plain_value v \<Longrightarrow> foldl lex_step (Lex (Str s) ts) v = Lex (Str (rev v @ s)) ts"
  by (induction v arbitrary: s) (auto simp: plain_value_def)

lemma lex_name: "foldl lex_step (Lex Idle ts) (col_name c) = Lex (Word (rev (col_name c))) ts"
  by (cases c) (simp_all add: lex_eval)

lemma lex_finish_ready: "ready st \<Longrightarrow> lex_finish st = Some (rev (flush st))"
  by (cases st rule: ready.cases) simp_all

lemma lex_space: "ready st \<Longrightarrow> lex_step st (CHR '' '') = Lex Idle (flush st)"
  by (cases st rule: ready.cases) (simp_all add: lex_eval)

lemma lex_pred:
  assumes "plain_value (snd p)"
  shows "foldl lex_step (Lex Idle ts) (pred_text p) =
           Lex (StrQ (rev (snd p))) (TEq # TIdent (col_name (fst p)) # ts)"
proof -
  have "foldl lex_step (Lex Idle ts) (pred_text p) =
        foldl lex_step (foldl lex_step (foldl lex_step (foldl lex_step (Lex Idle ts)
          (col_name (fst p))) '' = '') [quote]) (snd p @ [quote])"
    by (simp add: pred_text_def)
  also have "\<dots> = foldl lex_step (Lex (Str []) (TEq # TIdent (col_name (fst p)) # ts)) (snd p @ [quote])"
    by (simp add: lex_name lex_eval)
  also have "\<dots> = foldl lex_step (Lex (Str (rev (snd p) @ [])) (TEq # TIdent (col_name (fst p)) # ts)) [quote]"
    by (simp only: foldl_append lex_literal[OF assms])
  also have "\<dots> = Lex (StrQ (rev (snd p))) (TEq # TIdent (col_name (fst p)) # ts)"
    by simp
  finally show ?thesis .
qed

lemma lex_and:
  "foldl lex_step (Lex (StrQ s) ts) '' AND '' = Lex Idle (TIdent ''AND'' # TStr (rev s) # ts)"
  by (simp add: lex_eval)

lemma lex_where_preds:
  assumes "ps \<noteq> []" "\<forall>p \<in> set ps. plain_value (snd p)"
  shows "\<exists>s ts'. foldl lex_step (Lex Idle ts) (join '' AND '' (map pred_text ps)) = Lex (StrQ s) ts' \<and>
           TStr (rev s) # ts' = rev (where_toks ps) @ ts"
  using assms
proof (induction ps arbitrary: ts rule: where_toks.induct)
  case 1
  then show ?case by simp
next
  case (2 p)
  then show ?case by (simp add: lex_pred pred_toks_def)
next
  case (3 p q ps)
  from "3.prems" have p: "plain_value (snd p)" by auto
  let ?ts1 = "TIdent ''AND'' # TStr (snd p) # TEq # TIdent (col_name (fst p)) # ts"
  from "3.prems" have "\<forall>x \<in> set (q # ps). plain_value (snd x)" by auto
  from "3.IH"[OF _ this, of ?ts1] obtain s ts' where
    st: "foldl lex_step (Lex Idle ?ts1) (join '' AND '' (map pred_text (q # ps))) = Lex (StrQ s) ts'"
    and tk: "TStr (rev s) # ts' = rev (where_toks (q # ps)) @ ?ts1"
    by auto
  have "foldl lex_step (Lex Idle ts) (join '' AND '' (map pred_text (p # q # ps))) =
        foldl lex_step (foldl lex_step (foldl lex_step (Lex Idle ts) (pred_text p)) '' AND '')
          (join '' AND '' (map pred_text (q # ps)))"
    by simp
  also have "\<dots> = Lex (StrQ s) ts'"
    by (simp only: lex_pred[OF p] lex_and rev_rev_ident st)
  finally have "foldl lex_step (Lex Idle ts) (join '' AND '' (map pred_text (p # q # ps))) = Lex (StrQ s) ts'" .
  moreover have "TStr (rev s) # ts' = rev (where_toks (p # q # ps)) @ ts"
    using tk by (simp add: pred_toks_def)
  ultimately show ?case by blast
qed

lemma lex_group_names:
  assumes "cs \<noteq> []"
  shows "\<exists>w ts'. foldl lex_step (Lex Idle ts) (join '', '' (map col_name cs)) = Lex (Word w) ts' \<and>
           TIdent (rev w) # ts' = rev (group_toks cs) @ ts"
  using assms
proof (induction cs arbitrary: ts rule: group_toks.induct)
  case 1
  then show ?case by simp
next
  case (2 c)
  then show ?case by (simp add: lex_name)
next
  case (3 c d cs)
  let ?ts1 = "TComma # TIdent (col_name c) # ts"
  from "3.IH"[of ?ts1] obtain w ts' where
    st: "foldl lex_step (Lex Idle ?ts1) (join '', '' (map col_name (d # cs))) = Lex (Word w) ts'"
    and tk: "TIdent (rev w) # ts' = rev (group_toks (d # cs)) @ ?ts1"
    by auto
  have "foldl lex_step (Lex Idle ts) (join '', '' (map col_name (c # d # cs))) =
        foldl lex_step (foldl lex_step (foldl lex_step (Lex Idle ts) (col_name c)) '', '')
          (join '', '' (map col_name (d # cs)))"
    by simp
  also have "foldl lex_step (foldl lex_step (Lex Idle ts) (col_name c)) '', '' = Lex Idle ?ts1"
    by (simp add: lex_name lex_eval)
  finally have "foldl lex_step (Lex Idle ts) (join '', '' (map col_name (c # d # cs))) = Lex (Word w) ts'"
    using st by simp
  moreover have "TIdent (rev w) # ts' = rev (group_toks (c # d # cs)) @ ts"
    using tk by simp
  ultimately show ?case by blast
qed

lemma lex_where_clause:
  assumes "\<forall>p \<in> set (filter_pairs f). plain_value (snd p)"
  shows "ready (foldl lex_step (Lex Idle []) (where_clause f)) \<and>
         flush (foldl lex_step (Lex Idle []) (where_clause f)) = rev (wtoks (filter_pairs f))"
proof (cases "filter_pairs f = []")
  case True
  then show ?thesis by (simp add: where_clause_def query_filters_pairs wtoks_def)
next
  case False
  have "foldl lex_step (Lex Idle []) '' WHERE '' = Lex Idle [TIdent ''WHERE'']"
    by (simp add: lex_eval)
  moreover from lex_where_preds[OF False assms, of "[TIdent ''WHERE'']"] obtain s ts' where
    "foldl lex_step (Lex Idle [TIdent ''WHERE'']) (join '' AND '' (map pred_text (filter_pairs f))) = Lex (StrQ s) ts'"
    "TStr (rev s) # ts' = rev (where_toks (filter_pairs f)) @ [TIdent ''WHERE'']"
    by blast
  ultimately have "foldl lex_step (Lex Idle []) (where_clause f) = Lex (StrQ s) ts'"
    "flush (Lex (StrQ s) ts') = rev (wtoks (filter_pairs f))"
    using False by (simp_all add: where_clause_def query_filters_pairs wtoks_def)
  then show ?thesis by simp
qed

lemma lex_group_by_clause:
  assumes "ready st"
  shows "ready (foldl lex_step st (group_by_clause (map col_name cs))) \<and>
         flush (foldl lex_step st (group_by_clause (map col_name cs))) = rev (gtoks cs) @ flush st"
proof (cases "cs = []")
  case True
  then show ?thesis using assms by (simp add: group_by_clause_def gtoks_def)
next
  case False
  have "foldl lex_step st '' GROUP BY '' = foldl lex_step (lex_step st (CHR '' '')) ''GROUP BY ''"
    by simp
  also have "\<dots> = Lex Idle (TIdent ''BY'' # TIdent ''GROUP'' # flush st)"
    by (simp add: lex_space[OF assms] lex_eval)
  finally have a: "foldl lex_step st '' GROUP BY '' = Lex Idle (TIdent ''BY'' # TIdent ''GROUP'' # flush st)" .
  from lex_group_names[OF False, of "TIdent ''BY'' # TIdent ''GROUP'' # flush st"] obtain w ts' where
    "foldl lex_step (Lex Idle (TIdent ''BY'' # TIdent ''GROUP'' # flush st)) (join '', '' (map col_name cs)) = Lex (Word w) ts'"
    "TIdent (rev w) # ts' = rev (group_toks cs) @ TIdent ''BY'' # TIdent ''GROUP'' # flush st"
    by blast
  with a have "foldl lex_step st (group_by_clause (map col_name cs)) = Lex (Word w) ts'"
    "flush (Lex (Word w) ts') = rev (gtoks cs) @ flush st"
    using False by (simp_all add: group_by_clause_def gtoks_def)
  then show ?thesis by simp
qed

lemma tokenize_generated:
  assumes "\<forall>p \<in> set (filter_pairs f). plain_value (snd p)"
  shows "tokenize (where_clause f @ group_by_clause (map col_name cs)) =
           Some (wtoks (filter_pairs f) @ gtoks cs)"
proof -
  let ?st = "foldl lex_step (Lex Idle []) (where_clause f)"
  from lex_where_clause[OF assms] have w: "ready ?st" "flush ?st = rev (wtoks (filter_pairs f))"
    by auto
  from lex_group_by_clause[OF w(1), of cs] w(2)
  have g: "ready (foldl lex_step ?st (group_by_clause (map col_name cs)))"
    "flush (foldl lex_step ?st (group_by_clause (map col_name cs))) =
       rev (gtoks cs) @ rev (wtoks (filter_pairs f))"
    by auto
  show ?thesis
    by (simp add: tokenize_def lex_finish_ready[OF g(1)] g(2))
qed


lemma split_on_absent: "sep \<notin> set ts \<Longrightarrow> split_on sep ts = [ts]"
  by (induction ts) auto

lemma split_on_append:
  "sep \<notin> set a \<Longrightarrow> split_on sep (a @ sep # rest) = a # split_on sep rest"
  by (induction a) auto

lemma col_name_not_keyword:
  "col_name c \<noteq> ''AND''" "col_name c \<noteq> ''OR''" "col_name c \<noteq> ''GROUP''" "col_name c \<noteq> ''WHERE''"
  by (cases c; simp)+

lemma pred_toks_no_keyword:
  "TIdent ''AND'' \<notin> set (pred_toks p)" "TIdent ''OR'' \<notin> set (pred_toks p)"
  "TIdent ''GROUP'' \<notin> set (pred_toks p)"
  by (simp_all add: pred_toks_def col_name_not_keyword col_name_not_keyword[symmetric])

lemma where_toks_no_keyword:
  "TIdent ''OR'' \<notin> set (where_toks ps)" "TIdent ''GROUP'' \<notin> set (where_toks ps)"
  by (induction ps rule: where_toks.induct) (simp_all add: pred_toks_no_keyword)

lemma split_where_toks:
  "ps \<noteq> [] \<Longrightarrow> split_on (TIdent ''AND'') (where_toks ps) = map pred_toks ps"
proof (induction ps rule: where_toks.induct)
  case 1
  then show ?case by simp
next
  case (2 p)
  then show ?case by (simp add: split_on_absent pred_toks_no_keyword)
next
  case (3 p q ps)
  then show ?case by (simp add: split_on_append pred_toks_no_keyword)
qed

lemma parse_cmp_pred: "parse_cmp (pred_toks p) = Some (Col (fst p), Lit (snd p))"
  by (simp add: pred_toks_def text_column_col_name)

lemma those_map_Some: "\<forall>x \<in> set xs. g x = Some (h x) \<Longrightarrow> those (map g xs) = Some (map h xs)"
  by (induction xs) simp_all

lemma parse_and_where_toks:
  "ps \<noteq> [] \<Longrightarrow> parse_and (where_toks ps) = Some (map (\<lambda>p. (Col (fst p), Lit (snd p))) ps)"
  by (simp add: parse_and_def split_where_toks those_map_Some[where h = "\<lambda>p. (Col (fst p), Lit (snd p))"]
        parse_cmp_pred)

lemma parse_or_where_toks:
  "ps \<noteq> [] \<Longrightarrow> parse_or (where_toks ps) = Some [map (\<lambda>p. (Col (fst p), Lit (snd p))) ps]"
  by (simp add: parse_or_def split_on_absent where_toks_no_keyword parse_and_where_toks)

lemma parse_where_wtoks:
  "parse_where (wtoks (filter_pairs f)) = Some (where_expr_of f)"
  by (simp add: wtoks_def where_expr_of_def parse_or_where_toks case_prod_beta)

lemma split_group_toks:
  "cs \<noteq> [] \<Longrightarrow> split_on TComma (group_toks cs) = map (\<lambda>c. [TIdent (col_name c)]) cs"
  by (induction cs rule: group_toks.induct) simp_all

lemma parse_group_by_gtoks: "parse_group_by (gtoks cs) = Some cs"
proof (cases "cs = []")
  case True
  then show ?thesis by (simp add: gtoks_def)
next
  case False
  have "those (map (\<lambda>c. parse_group_col [TIdent (col_name c)]) cs) = Some (map (\<lambda>c. c) cs)"
    by (rule those_map_Some) (simp add: text_column_col_name)
  with False show ?thesis
    by (simp add: gtoks_def split_group_toks comp_def)
qed

lemma wtoks_no_group: "\<forall>t \<in> set (wtoks ps). t \<noteq> TIdent ''GROUP''"
  using where_toks_no_keyword(2)[of ps] by (auto simp: wtoks_def)

lemma take_drop_generated:
  "takeWhile (\<lambda>t. t \<noteq> TIdent ''GROUP'') (wtoks ps @ gtoks cs) = wtoks ps"
  "dropWhile (\<lambda>t. t \<noteq> TIdent ''GROUP'') (wtoks ps @ gtoks cs) = gtoks cs"
  using wtoks_no_group[of ps]
  by (simp_all add: takeWhile_append2 dropWhile_append2 gtoks_def)

lemma parse_tail_generated:
  assumes "\<forall>p \<in> set (filter_pairs f). plain_value (snd p)"
  shows "parse_tail (where_clause f @ group_by_clause (map col_name cs)) = Some (where_expr_of f, cs)"
  by (simp add: parse_tail_def tokenize_generated[OF assms] take_drop_generated
        parse_where_wtoks parse_group_by_gtoks)

lemma where_clause_starts: "where_clause f = [] \<or> hd (where_clause f) = CHR '' ''"
  by (simp add: where_clause_def)

lemma where_holds_matches: "where_holds (where_expr_of f) = matches f"
  by (rule ext)
     (simp add: where_holds_def where_expr_of_def matches_def list_all_iff list_ex_iff case_prod_beta)

lemma execute_filters_generated:
  assumes "\<forall>p \<in> set (filter_pairs f). plain_value (snd p)"
  shows "execute en table (sql_query_filters f) = Inr (map row_tuple (filter (matches f) table))"
proof -
  from parse_tail_generated[OF assms, of "[]"]
  have "parse_tail (where_clause f) = Some (where_expr_of f, [])"
    by (simp add: group_by_clause_def)
  then show ?thesis
    using where_clause_starts[of f]
    by (auto simp: sql_query_filters_def execute_filters select_star_def where_holds_matches)
qed

lemma execute_agg_generated:
  assumes "\<forall>p \<in> set (filter_pairs f). plain_value (snd p)"
  shows "execute en table (sql_query_agg f (map col_name cs)) =
           (if cs = [] then collect [agg_tuple (filter (matches f) table)]
            else collect (map agg_tuple (groups cs (filter (matches f) table))))"
  by (simp add: sql_query_agg_def execute_agg parse_tail_generated[OF assms] select_agg_def
        where_holds_matches)

subsection \<open>Aggregates and groups\<close>

lemma plain_filters_pairs:
  assumes "plain_filters f"
  shows "\<forall>p \<in> set (filter_pairs f). plain_value (snd p)"
  using assms
  by (auto simp: plain_filters_def filter_keys_def filter_pairs_def filter_pair_def
      split: option.splits if_splits)

lemma sum_int64_sum_list: "sum_int64 a xs = Some s \<Longrightarrow> s = a + sum_list xs"
proof (induction xs arbitrary: a)
  case Nil
  then show ?case by simp
next
  case (Cons x xs)
  from Cons.prems have "sum_int64 (a + x) xs = Some s" by (simp split: if_splits)
  from Cons.IH[OF this] show ?case by simp
qed

lemma max_int_Max: "xs \<noteq> [] \<Longrightarrow> max_int xs = SInt (Max (set xs))"
proof (cases xs)
  case Nil
  assume "xs \<noteq> []"
  with Nil show ?thesis by simp
next
  case (Cons a list)
  have "Max (set (a # list)) = fold max list a" by (rule Max.set_eq_fold)
  with Cons show ?thesis by (simp only: max_int_def list.case)
qed

lemma min_int_Min: "xs \<noteq> [] \<Longrightarrow> min_int xs = SInt (Min (set xs))"
proof (cases xs)
  case Nil
  assume "xs \<noteq> []"
  with Nil show ?thesis by simp
next
  case (Cons a list)
  have "Min (set (a # list)) = fold min list a" by (rule Min.set_eq_fold)
  with Cons show ?thesis by (simp only: min_int_def list.case)
qed

lemma count_distinct_card: "count_distinct xs = SInt (int (card (set xs)))"
  by (simp add: count_distinct_def length_remdups_card_conv)

lemma agg_tuple_overflow: "agg_tuple rows = Inl e \<Longrightarrow> e = ''integer overflow''"
  by (auto simp: agg_tuple_def split: option.splits)

lemma collect_agg_overflow: "collect (map agg_tuple gs) = Inl e \<Longrightarrow> e = ''integer overflow''"
  by (induction gs arbitrary: e) (auto split: sum.splits dest: agg_tuple_overflow)

lemma collect_Cons_Inr:
  "collect (x # xs) = Inr ts \<Longrightarrow> \<exists>t ts'. x = Inr t \<and> ts = t # ts'"
  by (auto split: sum.splits)

lemma aggregations_agg_tuple:
  assumes "rows \<noteq> []" "agg_tuple rows = Inr t"
  shows "aggregations en (t # ts) = Inr (group_stats rows)"
proof -
  from assms(2) obtain s where s: "sum_int64 0 (map UnitsSold rows) = Some s"
    and t: "t = [avg_real (map (\<lambda>r. real_of_int (OrderProcessingTime r)) rows),
               avg_real (map GrossMargin rows),
               avg_real (map (\<lambda>r. real_of_int (UnitsSold r)) rows),
               max_int (map UnitsSold rows),
               min_int (map UnitsSold rows),
               (if rows = [] then SNull else SInt s),
               sum_real (map TotalRevenue rows),
               sum_real (map TotalProfit rows),
               count_distinct (map OrderID rows)]"
    by (auto simp: agg_tuple_def split: option.splits)
  from sum_int64_sum_list[OF s] have s': "s = sum_list (map UnitsSold rows)" by simp
  have r1: "sum_list (map (\<lambda>r. real_of_int (OrderProcessingTime r)) rows) =
            real_of_int (sum_list (map OrderProcessingTime rows))"
    by (induction rows) simp_all
  have r2: "sum_list (map (\<lambda>r. real_of_int (UnitsSold r)) rows) =
            real_of_int (sum_list (map UnitsSold rows))"
    by (induction rows) simp_all
  show ?thesis
    unfolding t using assms(1)
    by (simp add: aggregations_def tuple_item_def bindS_def py_int_def pyval_of_def
          avg_real_def sum_real_def max_int_Max min_int_Min count_distinct_card s' r1 r2
          group_stats_def)
qed

lemma set_insert_key: "set (insert_key k ks) = insert k (set ks)"
  by (induction ks) auto

lemma set_group_keys: "set (group_keys cs rows) = group_key cs ` set rows"
  by (induction rows) (simp_all add: group_keys_def set_insert_key)

lemma sum_int64_None:
  "sum_int64 a xs = None \<longleftrightarrow> (\<exists>n. 1 \<le> n \<and> n \<le> length xs \<and> \<not> in_int64 (a + sum_list (take n xs)))"
proof (induction xs arbitrary: a)
  case Nil
  then show ?case by simp
next
  case (Cons x xs)
  show ?case
  proof (cases "in_int64 (a + x)")
    case False
    then have "sum_int64 a (x # xs) = None" unfolding in_int64_def by auto
    moreover have "1 \<le> (1::nat) \<and> 1 \<le> length (x # xs) \<and> \<not> in_int64 (a + sum_list (take 1 (x # xs)))"
      using False by simp
    ultimately show ?thesis by blast
  next
    case True
    then have s: "sum_int64 a (x # xs) = sum_int64 (a + x) xs" unfolding in_int64_def by auto
    have "(\<exists>n. 1 \<le> n \<and> n \<le> length xs \<and> \<not> in_int64 (a + x + sum_list (take n xs))) \<longleftrightarrow>
          (\<exists>n. 1 \<le> n \<and> n \<le> length (x # xs) \<and> \<not> in_int64 (a + sum_list (take n (x # xs))))"
    proof
      assume "\<exists>n. 1 \<le> n \<and> n \<le> length xs \<and> \<not> in_int64 (a + x + sum_list (take n xs))"
      then obtain n where "1 \<le> n" "n \<le> length xs" "\<not> in_int64 (a + x + sum_list (take n xs))"
        by blast
      then have "1 \<le> Suc n \<and> Suc n \<le> length (x # xs) \<and>
                 \<not> in_int64 (a + sum_list (take (Suc n) (x # xs)))"
        by (simp add: add.assoc)
      then show "\<exists>n. 1 \<le> n \<and> n \<le> length (x # xs) \<and> \<not> in_int64 (a + sum_list (take n (x # xs)))"
        by blast
    next
      assume "\<exists>n. 1 \<le> n \<and> n \<le> length (x # xs) \<and> \<not> in_int64 (a + sum_list (take n (x # xs)))"
      then obtain n where n: "1 \<le> n" "n \<le> length (x # xs)"
        "\<not> in_int64 (a + sum_list (take n (x # xs)))" by blast
      then obtain m where m: "n = Suc m" by (cases n) auto
      with n(3) have ni: "\<not> in_int64 (a + x + sum_list (take m xs))" by (simp add: add.assoc)
      with True have "m \<noteq> 0" by (cases m) auto
      with n(2) m ni show "\<exists>n. 1 \<le> n \<and> n \<le> length xs \<and> \<not> in_int64 (a + x + sum_list (take n xs))"
        by (intro exI[of _ m]) auto
    qed
    with s Cons.IH[of "a + x"] show ?thesis by simp
  qed
qed

lemma sum_int64_overflows: "sum_int64 0 xs = None \<longleftrightarrow> sum_overflows xs"
proof -
  have ran: "set [0..<Suc (length xs)] = {n. n \<le> length xs}" by auto
  have z: "in_int64 (sum_list (take 0 xs))" by (simp add: in_int64_def)
  have "(\<exists>n. 1 \<le> n \<and> n \<le> length xs \<and> \<not> in_int64 (0 + sum_list (take n xs))) \<longleftrightarrow>
        (\<exists>n. n \<le> length xs \<and> \<not> in_int64 (sum_list (take n xs)))"
  proof
    assume "\<exists>n. 1 \<le> n \<and> n \<le> length xs \<and> \<not> in_int64 (0 + sum_list (take n xs))"
    then show "\<exists>n. n \<le> length xs \<and> \<not> in_int64 (sum_list (take n xs))" by auto
  next
    assume "\<exists>n. n \<le> length xs \<and> \<not> in_int64 (sum_list (take n xs))"
    then obtain n where n: "n \<le> length xs" "\<not> in_int64 (sum_list (take n xs))" by blast
    with z have "n \<noteq> 0" by (cases n) auto
    then have "1 \<le> n" by simp
    with n show "\<exists>n. 1 \<le> n \<and> n \<le> length xs \<and> \<not> in_int64 (0 + sum_list (take n xs))"
      by (intro exI[of _ n]) simp
  qed
  then show ?thesis
    unfolding sum_int64_None sum_overflows_def list_ex_iff ran by simp
qed

lemma agg_tuple_Inl_iff: "(\<exists>e. agg_tuple rows = Inl e) \<longleftrightarrow> sum_overflows (map UnitsSold rows)"
  by (auto simp: agg_tuple_def sum_int64_overflows[symmetric] split: option.splits)

lemma collect_Inl_iff: "(\<exists>e. collect xs = Inl e) \<longleftrightarrow> (\<exists>x \<in> set xs. \<exists>e. x = Inl e)"
  by (induction xs) (auto split: sum.splits)

lemma collect_agg_Inl_iff:
  "(\<exists>e. collect (map agg_tuple gs) = Inl e) \<longleftrightarrow> (\<exists>grp \<in> set gs. sum_overflows (map UnitsSold grp))"
  using agg_tuple_Inl_iff by (auto simp: collect_Inl_iff)

lemma of_char_inj: "(of_char x :: nat) = of_char y \<Longrightarrow> x = y"
  by (metis char_of_char)

lemma str_less_irrefl: "\<not> str_less a a"
  by (induction a) auto

lemma str_less_trans: "str_less a b \<Longrightarrow> str_less b c \<Longrightarrow> str_less a c"
proof (induction a b arbitrary: c rule: str_less.induct)
  case 1
  then show ?case by simp
next
  case (2 y ys)
  then show ?case by (cases c) auto
next
  case (3 x xs)
  then show ?case by simp
next
  case (4 x xs y ys)
  then show ?case by (cases c) auto
qed

lemma str_less_total: "a = b \<or> str_less a b \<or> str_less b a"
proof (induction a b rule: str_less.induct)
  case (4 x xs y ys)
  then show ?case using of_char_inj[of x y] by (auto simp: not_less_iff_gr_or_eq)
qed auto

lemma key_less_trans: "key_less a b \<Longrightarrow> key_less b c \<Longrightarrow> key_less a c"
proof (induction a b arbitrary: c rule: key_less.induct)
  case (1 x xs y ys)
  then show ?case by (cases c) (auto dest: str_less_trans)
qed auto

lemma key_less_total: "length a = length b \<Longrightarrow> a = b \<or> key_less a b \<or> key_less b a"
proof (induction a b rule: list_induct2)
  case Nil
  then show ?case by simp
next
  case (Cons x xs y ys)
  then show ?case using str_less_total[of x y] by auto
qed

lemma key_less_irrefl: "\<not> key_less a a"
  by (induction a) (auto simp: str_less_irrefl)

lemma insert_key_hd:
  assumes "\<forall>x \<in> set ks. length x = length k"
    and "ks = [] \<or> (\<forall>x \<in> set ks. key_le (hd ks) x)"
  shows "\<forall>x \<in> set (insert_key k ks). key_le (hd (insert_key k ks)) x"
proof (cases ks)
  case Nil
  then show ?thesis by (simp add: key_le_def)
next
  case (Cons y ys)
  with assms(2) have hd: "\<forall>x \<in> set (y # ys). key_le y x" by simp
  from assms(1) Cons have len: "length y = length k" by simp
  consider "k = y" | "k \<noteq> y" "key_less k y" | "k \<noteq> y" "\<not> key_less k y" by blast
  then show ?thesis
  proof cases
    case 1
    with Cons hd show ?thesis by simp
  next
    case 2
    have "key_le k x" if "x \<in> set (y # ys)" for x
      using hd that 2(2) by (auto simp: key_le_def dest: key_less_trans)
    with Cons 2 show ?thesis by (simp add: key_le_def)
  next
    case 3
    with key_less_total[OF len] have "key_less y k" by auto
    then have "\<forall>x \<in> set (insert_key k ys). key_le y x"
      using hd by (auto simp: set_insert_key key_le_def)
    with Cons 3 show ?thesis by (simp add: key_le_def)
  qed
qed

lemma group_keys_hd:
  "\<forall>x \<in> set (group_keys cs rows). key_le (hd (group_keys cs rows)) x"
proof (induction rows)
  case Nil
  then show ?case by (simp add: group_keys_def)
next
  case (Cons r rows)
  have g: "group_keys cs (r # rows) = insert_key (group_key cs r) (group_keys cs rows)"
    by (simp add: group_keys_def)
  have "\<forall>x \<in> set (group_keys cs rows). length x = length (group_key cs r)"
    by (auto simp: set_group_keys group_key_def)
  moreover have "group_keys cs rows = [] \<or> (\<forall>x \<in> set (group_keys cs rows). key_le (hd (group_keys cs rows)) x)"
    using Cons.IH by simp
  ultimately show ?case unfolding g by (rule insert_key_hd)
qed

lemma groups_first_least:
  assumes "rows \<noteq> []"
  shows "\<exists>r0 \<in> set rows. \<exists>rest.
           (\<forall>r \<in> set rows. key_le (group_key cs r0) (group_key cs r)) \<and>
           groups cs rows = filter (\<lambda>r. group_key cs r = group_key cs r0) rows # rest"
proof -
  from assms have "group_keys cs rows \<noteq> []"
    using set_group_keys[of cs rows] by (cases rows) auto
  then obtain k ks where ks: "group_keys cs rows = k # ks" by (cases "group_keys cs rows") auto
  then have "k \<in> group_key cs ` set rows" using set_group_keys[of cs rows] by auto
  then obtain r0 where r0: "r0 \<in> set rows" "k = group_key cs r0" by auto
  from group_keys_hd[of cs rows] ks have "\<forall>x \<in> set (group_keys cs rows). key_le k x" by simp
  then have "\<forall>r \<in> set rows. key_le (group_key cs r0) (group_key cs r)"
    using r0(2) by (simp add: set_group_keys)
  with ks r0 show ?thesis by (auto simp: groups_def)
qed


lemma set_groups:
  "set (groups cs rows) = (\<lambda>r. filter (\<lambda>r'. group_key cs r' = group_key cs r) rows) ` set rows"
  by (auto simp: groups_def set_group_keys)

lemma collect_groups_Inl_iff:
  "(\<exists>e. collect (map agg_tuple (groups cs rows)) = Inl e) \<longleftrightarrow>
   (\<exists>r \<in> set rows. sum_overflows (map UnitsSold (filter (\<lambda>r'. group_key cs r' = group_key cs r) rows)))"
  unfolding collect_agg_Inl_iff set_groups by blast

lemma handler_success:
  assumes "ev_bucket_name ev = Some b" "b \<noteq> []" "ev_key ev = Some k" "k \<noteq> []"
    and "download en b k = Inr table"
    and "run_queries en table (get_Filters ev) (get_Group_By ev) = Inr (fr, ar)"
    and "aggregations en ar = Inr aggs"
  shows "lambda_handler en ev =
           dict_update [(''statusCode'', PInt 200), (''aggregations'', PDict aggs)] (runtime_metrics en)"
  using assms by (simp add: lambda_handler_def handler_body_def bindS_def)

lemma handler_failure:
  assumes "ev_bucket_name ev = Some b" "b \<noteq> []" "ev_key ev = Some k" "k \<noteq> []"
    and "download en b k = Inr table"
    and "run_queries en table (get_Filters ev) (get_Group_By ev) = Inl e"
  shows "lambda_handler en ev =
           dict_update [(''statusCode'', PInt 500), (''error'', PStr e)] (runtime_metrics en)"
  using assms by (simp add: lambda_handler_def handler_body_def bindS_def)

lemma run_queries_generated:
  assumes "plain_filters f"
  shows "run_queries en table f (map col_name cs) =
           bindS (if cs = [] then collect [agg_tuple (filter (matches f) table)]
                  else collect (map agg_tuple (groups cs (filter (matches f) table))))
             (\<lambda>agg_result. Inr (map row_tuple (filter (matches f) table), agg_result))"
  by (simp add: run_queries_def execute_filters_generated[OF plain_filters_pairs[OF assms]]
        execute_agg_generated[OF plain_filters_pairs[OF assms]] bindS_def)


lemma agg_tuple_Nil:
  "agg_tuple [] = Inr [SNull, SNull, SNull, SNull, SNull, SNull, SNull, SNull, SInt 0]"
  by (simp add: agg_tuple_def avg_real_def max_int_def min_int_def sum_real_def count_distinct_def)

lemma aggregations_null:
  "aggregations en [[SNull, SNull, SNull, SNull, SNull, SNull, SNull, SNull, SInt 0]] = Inr null_stats"
  by (simp add: aggregations_def tuple_item_def bindS_def py_int_def pyval_of_def null_stats_def)

lemma groups_Nil: "groups cs [] = []"
  by (simp add: groups_def group_keys_def)

section \<open>Claims about \<open>lambda_handler\<close>\<close>

text \<open>
  C1 at the request Filters = {Region: \<^verbatim>\<open>A' OR '1'='1\<close>}. The value is placed in the text of
  the query, which becomes \<^verbatim>\<open>SELECT * FROM orders WHERE Region = 'A' OR '1'='1'\<close>: a
  disjunction of two equalities, the second of which holds for every row. No row of the
  sample database has this Region, and both rows are returned and aggregated.
\<close>

theorem filter_value_changes_query:
  "sql_query_filters [''Region'' \<mapsto> ''A' OR '1'='1''] =
     ''SELECT * FROM orders WHERE Region = 'A' OR '1'='1'' @ [quote] \<and>
   parse_tail ('' WHERE Region = 'A' OR '1'='1'' @ [quote]) =
     Some (Some [[(Col Col_Region, Lit ''A'')], [(Lit ''1'', Lit ''1'')]], []) \<and>
   filter (\<lambda>r. Region r = ''A' OR '1'='1'') [sample_asia, sample_europe] = [] \<and>
   run_queries (sample_env [sample_asia, sample_europe]) [sample_asia, sample_europe]
     [''Region'' \<mapsto> ''A' OR '1'='1''] [] =
     Inr ([row_tuple sample_asia, row_tuple sample_europe],
          [[SReal 0, SReal (1 / 5), SReal 4, SInt 5, SInt 3, SInt 8, SReal 10, SReal 4, SInt 2]]) \<and>
   lambda_handler (sample_env [sample_asia, sample_europe])
     (sample_event (Some [''Region'' \<mapsto> ''A' OR '1'='1'']) None) =
   [(''statusCode'', PInt 200),
    (''aggregations'', PDict
      [(''Average Order Processing Time in days'', PFloat 0),
       (''Average Gross Margin'', PFloat (1 / 5)),
       (''Average Units Sold'', PFloat 4), (''Max Units Sold'', PInt 5),
       (''Min Units Sold'', PInt 3), (''Total Units Sold'', PInt 8),
       (''Total Revenue'', PFloat 10), (''Total Profit'', PFloat 4),
       (''Number of Orders'', PInt 2)]),
    (''lang'', PStr ''python'')]"
proof -
  have a: "sql_query_filters [''Region'' \<mapsto> ''A' OR '1'='1''] =
     ''SELECT * FROM orders WHERE Region = 'A' OR '1'='1'' @ [quote]"
    by (simp add: text_eval sql_query_filters_base_def quote_def)
  have b: "parse_tail ('' WHERE Region = 'A' OR '1'='1'' @ [quote]) =
     Some (Some [[(Col Col_Region, Lit ''A'')], [(Lit ''1'', Lit ''1'')]], [])"
    by (simp add: parse_eval)
  have c: "filter (\<lambda>r. Region r = ''A' OR '1'='1'') [sample_asia, sample_europe] = []"
    by (simp add: sample_asia_def sample_europe_def)
  have d: "run_queries (sample_env [sample_asia, sample_europe]) [sample_asia, sample_europe]
     [''Region'' \<mapsto> ''A' OR '1'='1''] [] =
     Inr ([row_tuple sample_asia, row_tuple sample_europe],
          [[SReal 0, SReal (1 / 5), SReal 4, SInt 5, SInt 3, SInt 8, SReal 10, SReal 4, SInt 2]])"
    by (simp add: run_queries_def bindS_def text_eval execute_eval parse_eval
        select_eval sample_asia_def sample_europe_def)
  have e: "lambda_handler (sample_env [sample_asia, sample_europe])
     (sample_event (Some [''Region'' \<mapsto> ''A' OR '1'='1'']) None) =
   [(''statusCode'', PInt 200),
    (''aggregations'', PDict
      [(''Average Order Processing Time in days'', PFloat 0),
       (''Average Gross Margin'', PFloat (1 / 5)),
       (''Average Units Sold'', PFloat 4), (''Max Units Sold'', PInt 5),
       (''Min Units Sold'', PInt 3), (''Total Units Sold'', PInt 8),
       (''Total Revenue'', PFloat 10), (''Total Profit'', PFloat 4),
       (''Number of Orders'', PInt 2)]),
    (''lang'', PStr ''python'')]"
    by (simp add: handler_eval text_eval execute_eval parse_eval select_eval sample_query_defs)
  show ?thesis by (intro conjI) (rule a, rule b, rule c, rule d, rule e)
qed

text \<open>
  C2, as the claim states it, fails: a request whose Filters hold the key Discount and
  whose Group By names OrderDate, neither of them in the allow-list, is answered with
  status 200 and the aggregates of the first OrderDate group, and the answer is that of
  the same request without Filters.
\<close>

theorem unknown_filter_not_rejected:
  "lambda_handler (sample_env [sample_asia, sample_europe])
     (sample_event (Some [''Discount'' \<mapsto> ''10%'']) (Some [''OrderDate''])) =
   [(''statusCode'', PInt 200),
    (''aggregations'', PDict
      [(''Average Order Processing Time in days'', PFloat 4),
       (''Average Gross Margin'', PFloat (2 / 5)),
       (''Average Units Sold'', PFloat 5), (''Max Units Sold'', PInt 5),
       (''Min Units Sold'', PInt 5), (''Total Units Sold'', PInt 5),
       (''Total Revenue'', PFloat 10), (''Total Profit'', PFloat 4),
       (''Number of Orders'', PInt 1)]),
    (''lang'', PStr ''python'')] \<and>
   lambda_handler (sample_env [sample_asia, sample_europe])
     (sample_event (Some [''Discount'' \<mapsto> ''10%'']) (Some [''OrderDate''])) =
   lambda_handler (sample_env [sample_asia, sample_europe])
     (sample_event None (Some [''OrderDate'']))"
  by (simp add: handler_eval text_eval execute_eval parse_eval select_eval
     sample_query_defs)


text \<open>
  C2, amended. A key of Filters other than the five that the handler reads (Region,
  Item Type, Sales Channel, Order Priority, Country) is ignored: requests that agree on
  these five keys get the same response. No field name is checked before data access: a
  request without bucket_name or key, and a request whose download fails, get their error
  response whatever Filters and Group By hold; and every Group By name is placed unchanged
  in the GROUP BY clause of the aggregation query.
\<close>

theorem filters_read_by_five_keys:
  "((\<forall>k \<in> filter_keys. f k = f' k) \<longrightarrow>
      lambda_handler en (ev\<lparr>ev_Filters := Some f\<rparr>) = lambda_handler en (ev\<lparr>ev_Filters := Some f'\<rparr>)) \<and>
   (ev_bucket_name ev \<in> {None, Some []} \<or> ev_key ev \<in> {None, Some []} \<longrightarrow>
      lambda_handler en ev =
        dict_update [(''statusCode'', PInt 500),
                     (''error'', PStr ''Both 'bucket_name' and 'key' are required.'')]
          (runtime_metrics en)) \<and>
   (b \<noteq> [] \<and> k \<noteq> [] \<and> download en b k = Inl msg \<longrightarrow>
      lambda_handler en \<lparr>ev_bucket_name = Some b, ev_key = Some k, ev_Filters = fo, ev_Group_By = go\<rparr> =
        dict_update [(''statusCode'', PInt 500), (''error'', PStr msg)] (runtime_metrics en)) \<and>
   (g \<noteq> [] \<longrightarrow> sql_query_agg f g = sql_query_agg f [] @ '' GROUP BY '' @ join '', '' g)"
proof -
  have a: "lambda_handler en (ev\<lparr>ev_Filters := Some f\<rparr>) = lambda_handler en (ev\<lparr>ev_Filters := Some f'\<rparr>)"
    if "\<forall>k \<in> filter_keys. f k = f' k"
    using query_filters_cong[OF that] by (rule handler_filters_cong)
  have d: "sql_query_agg f g = sql_query_agg f [] @ '' GROUP BY '' @ join '', '' g" if "g \<noteq> []"
    using that by (simp add: sql_query_agg_def group_by_clause_def)
  from a handler_missing_parameter[of ev en] handler_download_fails[of b k en msg fo go] d
  show ?thesis by blast
qed

theorem filters_read_by_five_keys_witness:
  "[''Discount'' \<mapsto> ''10%''] ''Region'' = Map.empty ''Region'' \<and>
   [''Discount'' \<mapsto> ''10%''] ''Item Type'' = Map.empty ''Item Type'' \<and>
   [''Discount'' \<mapsto> ''10%''] ''Sales Channel'' = Map.empty ''Sales Channel'' \<and>
   [''Discount'' \<mapsto> ''10%''] ''Order Priority'' = Map.empty ''Order Priority'' \<and>
   [''Discount'' \<mapsto> ''10%''] ''Country'' = Map.empty ''Country'' \<and>
   lambda_handler (sample_env [sample_asia, sample_europe])
     ((sample_event None None)\<lparr>ev_Filters := Some [''Discount'' \<mapsto> ''10%'']\<rparr>) =
   lambda_handler (sample_env [sample_asia, sample_europe])
     ((sample_event None None)\<lparr>ev_Filters := Some Map.empty\<rparr>) \<and>
   ev_bucket_name \<lparr>ev_bucket_name = None, ev_key = Some ''databases/data.db'',
       ev_Filters = None, ev_Group_By = None\<rparr> \<in> {None, Some []} \<and>
   lambda_handler (sample_env [sample_asia, sample_europe])
     \<lparr>ev_bucket_name = None, ev_key = Some ''databases/data.db'',
       ev_Filters = None, ev_Group_By = None\<rparr> =
     [(''statusCode'', PInt 500),
      (''error'', PStr ''Both 'bucket_name' and 'key' are required.''),
      (''lang'', PStr ''python'')] \<and>
   download (sample_env [sample_asia, sample_europe]) ''elsewhere'' ''data.db'' = Inl ''Not Found'' \<and>
   lambda_handler (sample_env [sample_asia, sample_europe])
     \<lparr>ev_bucket_name = Some ''elsewhere'', ev_key = Some ''data.db'',
       ev_Filters = Some [''Discount'' \<mapsto> ''10%''], ev_Group_By = Some [''Discount'']\<rparr> =
     [(''statusCode'', PInt 500), (''error'', PStr ''Not Found''), (''lang'', PStr ''python'')] \<and>
   [''OrderDate'', ''Discount''] \<noteq> [] \<and>
   sql_query_agg [''Discount'' \<mapsto> ''10%''] [''OrderDate'', ''Discount''] =
     sql_query_agg [''Discount'' \<mapsto> ''10%''] [] @ '' GROUP BY OrderDate, Discount''"
proof -
  let ?E = "sample_env [sample_asia, sample_europe]"
  let ?ev = "\<lparr>ev_bucket_name = None, ev_key = Some ''databases/data.db'',
       ev_Filters = None, ev_Group_By = None\<rparr>"
  note t = filters_read_by_five_keys[where f = "[''Discount'' \<mapsto> ''10%'']" and f' = Map.empty
      and en = ?E and ev = "sample_event None None" and b = "''elsewhere''" and k = "''data.db''"
      and msg = "''Not Found''" and fo = "Some [''Discount'' \<mapsto> ''10%'']"
      and go = "Some [''Discount'']" and g = "[''OrderDate'', ''Discount'']"]
  note t' = filters_read_by_five_keys[where en = ?E and ev = ?ev]
  have k1: "[''Discount'' \<mapsto> ''10%''] ''Region'' = Map.empty ''Region''"
    and k2: "[''Discount'' \<mapsto> ''10%''] ''Item Type'' = Map.empty ''Item Type''"
    and k3: "[''Discount'' \<mapsto> ''10%''] ''Sales Channel'' = Map.empty ''Sales Channel''"
    and k4: "[''Discount'' \<mapsto> ''10%''] ''Order Priority'' = Map.empty ''Order Priority''"
    and k5: "[''Discount'' \<mapsto> ''10%''] ''Country'' = Map.empty ''Country''"
    by simp_all
  from k1 k2 k3 k4 k5
  have h1: "\<forall>k \<in> filter_keys. [''Discount'' \<mapsto> ''10%''] k = Map.empty k"
    unfolding filter_keys_def by blast
  have h2: "ev_bucket_name ?ev \<in> {None, Some []}" by simp
  have h3: "download ?E ''elsewhere'' ''data.db'' = Inl ''Not Found''"
    by (simp add: sample_env_def)
  have h4: "[''OrderDate'', ''Discount''] \<noteq> []" by simp
  note c1 = t[THEN conjunct1, THEN mp, OF h1]
  have m: "runtime_metrics ?E = [(''lang'', PStr ''python'')]" by (simp add: sample_env_def)
  from t'[THEN conjunct2, THEN conjunct1] h2
  have c2: "lambda_handler ?E ?ev =
     [(''statusCode'', PInt 500),
      (''error'', PStr ''Both 'bucket_name' and 'key' are required.''),
      (''lang'', PStr ''python'')]"
    by (simp add: m dict_update_def)
  from t[THEN conjunct2, THEN conjunct2, THEN conjunct1] h3
  have c3: "lambda_handler ?E
     \<lparr>ev_bucket_name = Some ''elsewhere'', ev_key = Some ''data.db'',
       ev_Filters = Some [''Discount'' \<mapsto> ''10%''], ev_Group_By = Some [''Discount'']\<rparr> =
     [(''statusCode'', PInt 500), (''error'', PStr ''Not Found''), (''lang'', PStr ''python'')]"
    by (simp add: m dict_update_def)
  from t[THEN conjunct2, THEN conjunct2, THEN conjunct2] h4
  have c4: "sql_query_agg [''Discount'' \<mapsto> ''10%''] [''OrderDate'', ''Discount''] =
     sql_query_agg [''Discount'' \<mapsto> ''10%''] [] @ '' GROUP BY OrderDate, Discount''"
    by simp
  show ?thesis
    by (intro conjI)
       (rule k1, rule k2, rule k3, rule k4, rule k5, rule c1, rule h2, rule c2, rule h3, rule c3,
        rule h4, rule c4)
qed

text \<open>
  C3, as the claim states it, fails. On the sample database, grouped by Region, there are
  two groups (Asia and Europe), and the response holds one dictionary of nine statistics,
  those of the Asia group; the statistics of the Europe group are not in it, and no sum of
  OrderProcessingTime is among the nine.
\<close>

theorem only_first_group_returned:
  "lambda_handler (sample_env [sample_asia, sample_europe]) (sample_event None (Some [''Region''])) =
   [(''statusCode'', PInt 200),
    (''aggregations'', PDict
      [(''Average Order Processing Time in days'', PFloat 4),
       (''Average Gross Margin'', PFloat (2 / 5)),
       (''Average Units Sold'', PFloat 5), (''Max Units Sold'', PInt 5),
       (''Min Units Sold'', PInt 5), (''Total Units Sold'', PInt 5),
       (''Total Revenue'', PFloat 10), (''Total Profit'', PFloat 4),
       (''Number of Orders'', PInt 1)]),
    (''lang'', PStr ''python'')] \<and>
   groups [Col_Region] [sample_asia, sample_europe] = [[sample_asia], [sample_europe]] \<and>
   agg_tuple [sample_europe] =
     Inr [SReal (- 4), SReal 0, SReal 3, SInt 3, SInt 3, SInt 3, SReal 0, SReal 0, SInt 1]"
proof -
  have "lambda_handler (sample_env [sample_asia, sample_europe]) (sample_event None (Some [''Region''])) =
   [(''statusCode'', PInt 200),
    (''aggregations'', PDict
      [(''Average Order Processing Time in days'', PFloat 4),
       (''Average Gross Margin'', PFloat (2 / 5)),
       (''Average Units Sold'', PFloat 5), (''Max Units Sold'', PInt 5),
       (''Min Units Sold'', PInt 5), (''Total Units Sold'', PInt 5),
       (''Total Revenue'', PFloat 10), (''Total Profit'', PFloat 4),
       (''Number of Orders'', PInt 1)]),
    (''lang'', PStr ''python'')]"
    by (simp add: handler_eval text_eval execute_eval parse_eval select_eval sample_query_defs)
  moreover have "groups [Col_Region] [sample_asia, sample_europe] = [[sample_asia], [sample_europe]]"
    by (simp add: groups_def group_keys_def group_key_def sample_asia_def sample_europe_def)
  moreover have "agg_tuple [sample_europe] =
     Inr [SReal (- 4), SReal 0, SReal 3, SInt 3, SInt 3, SInt 3, SReal 0, SReal 0, SInt 1]"
    by (simp add: select_eval sample_europe_def)
  ultimately show ?thesis by blast
qed


text \<open>
  C3, amended. For every request with bucket_name and key whose download succeeds, whose
  filter values are plain, whose Group By list is a non-empty list of text columns and
  whose filtered set is not empty. If in some group of the filtered set the sum of
  UnitsSold, added row by row, leaves the 64-bit range, the response is the error
  \<^verbatim>\<open>integer overflow\<close> of SQLite with status 500. Otherwise the response has status 200 and
  its aggregations are a single dictionary of nine statistics (the averages of
  OrderProcessingTime, GrossMargin and UnitsSold, the maximum, minimum and sum of
  UnitsSold, the sums of TotalRevenue and TotalProfit, and the number of distinct OrderID)
  computed over the rows of one group only: the group whose key is the least of the group
  keys of the filtered set.
\<close>

theorem first_group_statistics:
  assumes "ev_bucket_name ev = Some b" "b \<noteq> []" "ev_key ev = Some k" "k \<noteq> []"
    and "download en b k = Inr table"
    and "plain_filters (get_Filters ev)"
    and "get_Group_By ev = map col_name cs" and "cs \<noteq> []"
    and "filter (matches (get_Filters ev)) table \<noteq> []"
  shows "((\<exists>r \<in> set (filter (matches (get_Filters ev)) table).
             sum_overflows (map UnitsSold (filter (\<lambda>r'. group_key cs r' = group_key cs r)
                (filter (matches (get_Filters ev)) table)))) \<longrightarrow>
          lambda_handler en ev =
            dict_update [(''statusCode'', PInt 500), (''error'', PStr ''integer overflow'')]
              (runtime_metrics en)) \<and>
         (\<not> (\<exists>r \<in> set (filter (matches (get_Filters ev)) table).
             sum_overflows (map UnitsSold (filter (\<lambda>r'. group_key cs r' = group_key cs r)
                (filter (matches (get_Filters ev)) table)))) \<longrightarrow>
          (\<exists>r0 \<in> set (filter (matches (get_Filters ev)) table).
             (\<forall>r \<in> set (filter (matches (get_Filters ev)) table).
                key_le (group_key cs r0) (group_key cs r)) \<and>
             lambda_handler en ev =
               dict_update [(''statusCode'', PInt 200),
                            (''aggregations'', PDict (group_stats
                               (filter (\<lambda>r. group_key cs r = group_key cs r0)
                                  (filter (matches (get_Filters ev)) table))))]
                 (runtime_metrics en)))"
proof -
  let ?m = "filter (matches (get_Filters ev)) table"
  let ?ov = "\<exists>r \<in> set ?m. sum_overflows (map UnitsSold (filter (\<lambda>r'. group_key cs r' = group_key cs r) ?m))"
  from groups_first_least[OF assms(9), of cs] obtain r0 rest where r0: "r0 \<in> set ?m"
    and least: "\<forall>r \<in> set ?m. key_le (group_key cs r0) (group_key cs r)"
    and g: "groups cs ?m = filter (\<lambda>r. group_key cs r = group_key cs r0) ?m # rest"
    by blast
  let ?g1 = "filter (\<lambda>r. group_key cs r = group_key cs r0) ?m"
  from r0 have ne: "?g1 \<noteq> []" by (auto simp: filter_empty_conv)
  have rq: "run_queries en table (get_Filters ev) (get_Group_By ev) =
      bindS (collect (map agg_tuple (groups cs ?m))) (\<lambda>agg_result. Inr (map row_tuple ?m, agg_result))"
    using assms(8) by (simp add: assms(7) run_queries_generated[OF assms(6)])
  have ov: "(\<exists>e. collect (map agg_tuple (groups cs ?m)) = Inl e) \<longleftrightarrow> ?ov"
    by (rule collect_groups_Inl_iff)
  show ?thesis
  proof (cases "collect (map agg_tuple (groups cs ?m))")
    case (Inl e)
    then have "e = ''integer overflow''" by (rule collect_agg_overflow)
    with Inl rq have "run_queries en table (get_Filters ev) (get_Group_By ev) = Inl ''integer overflow''"
      by (simp add: bindS_def)
    from handler_failure[OF assms(1-5) this]
    have h: "lambda_handler en ev =
            dict_update [(''statusCode'', PInt 500), (''error'', PStr ''integer overflow'')]
              (runtime_metrics en)" .
    from Inl ov have "?ov" by blast
    with h show ?thesis by blast
  next
    case (Inr ts)
    with ov have nov: "\<not> ?ov" by auto
    from Inr g have "collect (agg_tuple ?g1 # map agg_tuple rest) = Inr ts" by simp
    from collect_Cons_Inr[OF this] obtain t ts' where t: "agg_tuple ?g1 = Inr t" "ts = t # ts'"
      by blast
    from Inr rq t(2) have rq': "run_queries en table (get_Filters ev) (get_Group_By ev) =
        Inr (map row_tuple ?m, t # ts')"
      by (simp add: bindS_def)
    from handler_success[OF assms(1-5) rq' aggregations_agg_tuple[OF ne t(1)]] r0 least nov
    show ?thesis by blast
  qed
qed

theorem first_group_statistics_witness:
  "plain_filters Map.empty \<and>
   filter (matches Map.empty) [sample_asia, sample_europe] = [sample_asia, sample_europe] \<and>
   filter (matches Map.empty) [sample_asia\<lparr>UnitsSold := 9223372036854775807\<rparr>, sample_asia] =
     [sample_asia\<lparr>UnitsSold := 9223372036854775807\<rparr>, sample_asia] \<and>
   lambda_handler (sample_env [sample_asia, sample_europe]) (sample_event None (Some [''Region''])) =
      [(''statusCode'', PInt 200), (''aggregations'', PDict (group_stats [sample_asia])),
       (''lang'', PStr ''python'')] \<and>
   lambda_handler (sample_env [sample_europe, sample_asia]) (sample_event None (Some [''Region''])) =
      [(''statusCode'', PInt 200), (''aggregations'', PDict (group_stats [sample_asia])),
       (''lang'', PStr ''python'')] \<and>
   lambda_handler (sample_env [sample_asia\<lparr>UnitsSold := 9223372036854775807\<rparr>, sample_asia])
       (sample_event None (Some [''Region''])) =
      [(''statusCode'', PInt 500), (''error'', PStr ''integer overflow''), (''lang'', PStr ''python'')]"
proof -
  let ?big = "sample_asia\<lparr>UnitsSold := 9223372036854775807\<rparr>"
  let ?ev = "sample_event None (Some [''Region''])"
  have p: "plain_filters Map.empty" by (simp add: plain_filters_def)
  have mall: "filter (matches Map.empty) T = T" for T
    by (simp add: matches_def filter_pairs_def filter_pair_def)
  have d: "download (sample_env T) ''bucket'' ''databases/data.db'' = Inr T" for T
    by (simp add: sample_env_def)
  have rm: "runtime_metrics (sample_env T) = [(''lang'', PStr ''python'')]" for T
    by (simp add: sample_env_def)
  have n: "''bucket'' \<noteq> []" "''databases/data.db'' \<noteq> []" by simp_all
  have e: "ev_bucket_name ?ev = Some ''bucket''" "ev_key ?ev = Some ''databases/data.db''"
    "get_Filters ?ev = Map.empty" "get_Group_By ?ev = map col_name [Col_Region]"
    by (simp_all add: sample_event_def get_Filters_def get_Group_By_def)
  have p': "plain_filters (get_Filters ?ev)" by (simp only: e(3) p)
  have m': "filter (matches (get_Filters ?ev)) T \<noteq> []" if "T \<noteq> []" for T
    using that by (simp add: e(3) mall)
  have c: "[Col_Region] \<noteq> []" by simp
  have ka: "group_key [Col_Region] sample_asia = [''Asia'']"
    and ke: "group_key [Col_Region] sample_europe = [''Europe'']"
    and kb: "group_key [Col_Region] ?big = [''Asia'']"
    by (simp_all add: group_key_def sample_asia_def sample_europe_def)
  have nle: "\<not> key_le [''Europe''] [''Asia'']" by (simp add: key_le_def)
  have so: "\<not> sum_overflows [5]" "\<not> sum_overflows [3]" "sum_overflows [9223372036854775807, 5]"
    by (simp_all add: sum_overflows_def in_int64_def)
  have us: "UnitsSold sample_asia = 5" "UnitsSold sample_europe = 3"
    "UnitsSold ?big = 9223372036854775807"
    by (simp_all add: sample_asia_def sample_europe_def)
  have r1: "lambda_handler (sample_env T) ?ev =
      [(''statusCode'', PInt 200), (''aggregations'', PDict (group_stats [sample_asia])),
       (''lang'', PStr ''python'')]"
    if T: "T = [sample_asia, sample_europe] \<or> T = [sample_europe, sample_asia]" for T
  proof -
    from T have ne: "T \<noteq> []" by auto
    from T have st: "set T = {sample_asia, sample_europe}" by auto
    from T have fa: "filter (\<lambda>r. group_key [Col_Region] r = [''Asia'']) T = [sample_asia]"
      and fe: "filter (\<lambda>r. group_key [Col_Region] r = [''Europe'']) T = [sample_europe]"
      by (auto simp: ka ke)
    note t = first_group_statistics[OF e(1) n(1) e(2) n(2) d p' e(4) c m'[OF ne],
        unfolded e(3) mall st, THEN conjunct2]
    have "\<not> (\<exists>r \<in> {sample_asia, sample_europe}.
             sum_overflows (map UnitsSold (filter (\<lambda>r'. group_key [Col_Region] r' = group_key [Col_Region] r) T)))"
      by (simp add: ka ke fa fe us so)
    from t[THEN mp, OF this] obtain r0 where r0: "r0 \<in> {sample_asia, sample_europe}"
      and le: "\<forall>r \<in> {sample_asia, sample_europe}. key_le (group_key [Col_Region] r0) (group_key [Col_Region] r)"
      and h: "lambda_handler (sample_env T) ?ev =
               dict_update [(''statusCode'', PInt 200),
                            (''aggregations'', PDict (group_stats
                               (filter (\<lambda>r. group_key [Col_Region] r = group_key [Col_Region] r0) T)))]
                 (runtime_metrics (sample_env T))"
      by blast
    from le nle have "r0 \<noteq> sample_europe" by (auto simp: ka ke)
    with r0 have "r0 = sample_asia" by simp
    with h show ?thesis by (simp add: ka fa rm dict_update_def)
  qed
  have r2: "lambda_handler (sample_env [?big, sample_asia]) ?ev =
      [(''statusCode'', PInt 500), (''error'', PStr ''integer overflow''), (''lang'', PStr ''python'')]"
  proof -
    have ne: "[?big, sample_asia] \<noteq> []" by simp
    note t = first_group_statistics[OF e(1) n(1) e(2) n(2) d p' e(4) c m'[OF ne],
        unfolded e(3) mall, THEN conjunct1]
    have "\<exists>r \<in> set [?big, sample_asia].
             sum_overflows (map UnitsSold (filter (\<lambda>r'. group_key [Col_Region] r' = group_key [Col_Region] r)
               [?big, sample_asia]))"
      by (simp add: ka kb us so)
    from t[THEN mp, OF this] show ?thesis by (simp add: rm dict_update_def)
  qed
  show ?thesis
    by (intro conjI) (rule p, rule mall, rule mall, rule r1, simp, rule r1, simp, rule r2)
qed

text \<open>
  C8, as the claim states it, fails. On the sample database the filter Region = Nowhere
  matches no row; the response has status 200, eight null statistics and Number of Orders
  0 (a number, not null), and it holds no record list: its keys are statusCode,
  aggregations and the runtime metrics.
\<close>

theorem empty_result_count_not_null:
  "lambda_handler (sample_env [sample_asia, sample_europe])
     (sample_event (Some [''Region'' \<mapsto> ''Nowhere'']) None) =
   [(''statusCode'', PInt 200),
    (''aggregations'', PDict
      [(''Average Order Processing Time in days'', PNone),
       (''Average Gross Margin'', PNone),
       (''Average Units Sold'', PNone), (''Max Units Sold'', PNone),
       (''Min Units Sold'', PNone), (''Total Units Sold'', PNone),
       (''Total Revenue'', PNone), (''Total Profit'', PNone),
       (''Number of Orders'', PInt 0)]),
    (''lang'', PStr ''python'')]"
  by (simp add: handler_eval text_eval execute_eval parse_eval select_eval sample_query_defs)


text \<open>
  C8, amended. For every request with bucket_name and key whose download succeeds, whose
  filter values are plain and whose Group By names are text columns of the table: when no
  row matches the filters, both queries succeed, the rows returned are none, and the
  response has status 200; without Group By its aggregations are the eight null averages,
  extrema and sums with Number of Orders 0, and with Group By they are the empty
  dictionary. No division fault occurs.
\<close>

theorem empty_filtered_set:
  assumes "ev_bucket_name ev = Some b" "b \<noteq> []" "ev_key ev = Some k" "k \<noteq> []"
    and "download en b k = Inr table"
    and "plain_filters (get_Filters ev)"
    and "get_Group_By ev = map col_name cs"
    and "filter (matches (get_Filters ev)) table = []"
  shows "run_queries en table (get_Filters ev) (get_Group_By ev) =
           Inr ([], if cs = [] then [[SNull, SNull, SNull, SNull, SNull, SNull, SNull, SNull, SInt 0]]
                    else []) \<and>
         lambda_handler en ev =
           dict_update [(''statusCode'', PInt 200),
                        (''aggregations'', PDict (if cs = [] then null_stats else []))]
             (runtime_metrics en)"
proof -
  have rq: "run_queries en table (get_Filters ev) (get_Group_By ev) =
           Inr ([], if cs = [] then [[SNull, SNull, SNull, SNull, SNull, SNull, SNull, SNull, SInt 0]]
                    else [])"
    by (simp add: assms(7) run_queries_generated[OF assms(6)] assms(8) agg_tuple_Nil groups_Nil
          bindS_def)
  have ag: "aggregations en (if cs = [] then [[SNull, SNull, SNull, SNull, SNull, SNull, SNull, SNull, SInt 0]]
                    else []) = Inr (if cs = [] then null_stats else [])"
    by (simp add: aggregations_null) (simp add: aggregations_def)
  from handler_success[OF assms(1-5) rq ag] rq show ?thesis by simp
qed

theorem empty_filtered_set_witness:
  "plain_filters [''Region'' \<mapsto> ''Nowhere''] \<and>
   filter (matches [''Region'' \<mapsto> ''Nowhere'']) [sample_asia, sample_europe] = [] \<and>
   lambda_handler (sample_env [sample_asia, sample_europe])
     (sample_event (Some [''Region'' \<mapsto> ''Nowhere'']) (Some [])) =
     [(''statusCode'', PInt 200), (''aggregations'', PDict null_stats), (''lang'', PStr ''python'')] \<and>
   lambda_handler (sample_env [sample_asia, sample_europe])
     (sample_event (Some [''Region'' \<mapsto> ''Nowhere'']) (Some [''Region'', ''OrderDate''])) =
     [(''statusCode'', PInt 200), (''aggregations'', PDict []), (''lang'', PStr ''python'')]"
proof -
  let ?f = "[''Region'' \<mapsto> ''Nowhere'']"
  let ?T = "[sample_asia, sample_europe]"
  let ?E = "sample_env ?T"
  let ?ev1 = "sample_event (Some ?f) (Some [])"
  let ?ev2 = "sample_event (Some ?f) (Some [''Region'', ''OrderDate''])"
  have p: "plain_filters ?f"
    by (simp add: plain_filters_def filter_keys_def plain_value_def quote_def)
  have m: "filter (matches ?f) ?T = []"
    by (simp add: matches_def filter_pairs_def filter_pair_def sample_asia_def sample_europe_def)
  have d: "download ?E ''bucket'' ''databases/data.db'' = Inr ?T" by (simp add: sample_env_def)
  have rm: "runtime_metrics ?E = [(''lang'', PStr ''python'')]" by (simp add: sample_env_def)
  have n: "''bucket'' \<noteq> []" "''databases/data.db'' \<noteq> []" by simp_all
  have e1: "ev_bucket_name ?ev1 = Some ''bucket''" "ev_key ?ev1 = Some ''databases/data.db''"
    "get_Filters ?ev1 = ?f" "get_Group_By ?ev1 = map col_name []"
    by (simp_all add: sample_event_def get_Filters_def get_Group_By_def)
  have e2: "ev_bucket_name ?ev2 = Some ''bucket''" "ev_key ?ev2 = Some ''databases/data.db''"
    "get_Filters ?ev2 = ?f" "get_Group_By ?ev2 = map col_name [Col_Region, Col_OrderDate]"
    by (simp_all add: sample_event_def get_Filters_def get_Group_By_def)
  have p1: "plain_filters (get_Filters ?ev1)" and m1: "filter (matches (get_Filters ?ev1)) ?T = []"
    by (simp_all only: e1(3) p m)
  have p2: "plain_filters (get_Filters ?ev2)" and m2: "filter (matches (get_Filters ?ev2)) ?T = []"
    by (simp_all only: e2(3) p m)
  from empty_filtered_set[OF e1(1) n(1) e1(2) n(2) d p1 e1(4) m1]
  have a: "lambda_handler ?E ?ev1 =
     [(''statusCode'', PInt 200), (''aggregations'', PDict null_stats), (''lang'', PStr ''python'')]"
    by (simp add: rm dict_update_def)
  from empty_filtered_set[OF e2(1) n(1) e2(2) n(2) d p2 e2(4) m2]
  have b: "lambda_handler ?E ?ev2 =
     [(''statusCode'', PInt 200), (''aggregations'', PDict []), (''lang'', PStr ''python'')]"
    by (simp add: rm dict_update_def)
  show ?thesis by (intro conjI) (rule p, rule m, rule a, rule b)
qed





end
